theory Spec2Isabelle
  imports Complex_Main "HOL-Library.Word" "HOL-Library.Log_Nat"
begin

section \<open>Numbers and vectors\<close>

text \<open>
  The game keeps every coordinate, speed, scale and the life value in a \<open>float64\<close>.
  They are read here as real numbers: arithmetic is exact, and there is no rounding, no
  infinity and no NaN. The one exception is \<open>zoom\<close>, which is given a second time with
  every operation rounded as \<open>float64\<close> rounds it (\<open>zoomFloat64\<close> below), because a
  claim about it is an equation between two ways of computing the same number.

  The counters \<open>ticksFromModeStart\<close>, \<open>ticksFromAllPointsOut\<close> and \<open>CoinHitEffect.ticks\<close>
  are unsigned 64-bit integers and the score is a signed 64-bit \<open>int\<close>; they are 64-bit
  words, so that \<open>+\<close> wraps as it does in Go, and the score is read as a signed number
  with \<open>sint\<close>.
\<close>

type_synonym float64 = real
type_synonym uint64 = "64 word"
type_synonym int64 = "64 word"

text \<open>
  Modelled from the spec: the type \<open>Vector2D\<close> and its methods \<open>Add\<close>, \<open>Sub\<close>, \<open>Mul\<close>,
  \<open>Div\<close>, \<open>Rotate\<close>, \<open>Norm\<close> and \<open>Normalize\<close> belong to the package \<open>mathutil\<close> of another
  repository, which the sources only import. The spec fixes their meaning:
  \<open>result = center + (point - center) * scale\<close> for \<open>p.Sub(c).Mul(s).Add(c)\<close>, so \<open>Add\<close>,
  \<open>Sub\<close> and \<open>Mul\<close> work by coordinates and each method returns a fresh vector; \<open>Rotate\<close>
  turns a vector by an angle; \<open>Norm\<close> is its magnitude, and \<open>Normalize\<close> scales it to
  magnitude 1. A method takes its receiver as first argument here. The sense of \<open>Rotate\<close>
  is the one of the rotation matrix; no claim below depends on it. The code calls
  \<open>Normalize\<close> only on vectors that are not zero.
\<close>

record Vector2D =
  X :: float64
  Y :: float64

definition Add :: "Vector2D \<Rightarrow> Vector2D \<Rightarrow> Vector2D" where
  "Add a b = \<lparr>X = X a + X b, Y = Y a + Y b\<rparr>"

definition Sub :: "Vector2D \<Rightarrow> Vector2D \<Rightarrow> Vector2D" where
  "Sub a b = \<lparr>X = X a - X b, Y = Y a - Y b\<rparr>"

definition Mul :: "Vector2D \<Rightarrow> float64 \<Rightarrow> Vector2D" where
  "Mul a k = \<lparr>X = X a * k, Y = Y a * k\<rparr>"

definition Div :: "Vector2D \<Rightarrow> float64 \<Rightarrow> Vector2D" where
  "Div a k = \<lparr>X = X a / k, Y = Y a / k\<rparr>"

definition Rotate :: "Vector2D \<Rightarrow> float64 \<Rightarrow> Vector2D" where
  "Rotate a th = \<lparr>X = X a * cos th - Y a * sin th, Y = X a * sin th + Y a * cos th\<rparr>"

definition Norm :: "Vector2D \<Rightarrow> float64" where
  "Norm a = sqrt ((X a)\<^sup>2 + (Y a)\<^sup>2)"

definition Normalize :: "Vector2D \<Rightarrow> Vector2D" where
  "Normalize a = Div a (Norm a)"

section \<open>Constants\<close>

definition screenWidth :: float64 where "screenWidth = 640"
definition screenHeight :: float64 where "screenHeight = 480"
definition coinHitZ :: float64 where "coinHitZ = 180"
definition playerHitR :: float64 where "playerHitR = 5.0"

section \<open>The fractal generator\<close>

text \<open>\<open>expandLine\<close> (main.go, lines 59 to 64): the five points of one detour.\<close>

definition expandLine :: "Vector2D \<Rightarrow> Vector2D \<Rightarrow> Vector2D list" where
  "expandLine s t =
     (let p1 = Add (Div (Sub t s) 3.0) s;
          p2 = Add (Mul (Div (Sub t s) 3.0) 2.0) s;
          p3 = Add (Rotate (Sub p2 p1) (- pi / 3)) p1
      in [s, p1, p3, p2, t])"

text \<open>\<open>zoom\<close> (main.go, lines 66 to 68).\<close>

definition zoom :: "Vector2D \<Rightarrow> Vector2D \<Rightarrow> float64 \<Rightarrow> Vector2D" where
  "zoom p c s = Add (Mul (Sub p c) s) c"

text \<open>
  The chained pass (main.go, lines 291 to 300 in \<open>Update\<close>, and again lines 646 to 655 in
  \<open>initialize\<close>): the loop \<open>for i := 0; i < len(g.points)-1; i++\<close> appends the detour of
  the segment \<open>(points[i], points[i+1])\<close> to \<open>newPoints\<close>, without its first point when
  \<open>i > 0\<close>. \<open>len(g.points)-1\<close> is a signed \<open>int\<close>: on an empty sequence it is \<open>-1\<close> and the
  loop body never runs, which \<open>i + 1 < length ps\<close> says without a subtraction.
\<close>

function expandLoop :: "nat \<Rightarrow> Vector2D list \<Rightarrow> Vector2D list \<Rightarrow> Vector2D list" where
  "expandLoop i ps newPoints =
     (if i + 1 < length ps
      then expandLoop (i + 1) ps
             (newPoints @ (if i > 0 then tl (expandLine (ps ! i) (ps ! (i + 1)))
                           else expandLine (ps ! i) (ps ! (i + 1))))
      else newPoints)"
  by pat_completeness auto
termination
  by (relation "measure (\<lambda>(i, ps, newPoints). length ps - i)") auto

definition expandPoints :: "Vector2D list \<Rightarrow> Vector2D list" where
  "expandPoints ps = expandLoop 0 ps []"

section \<open>The zoom in float64 arithmetic\<close>

text \<open>
  Go's \<open>float64\<close> is the binary64 format of IEEE 754. A finite \<open>float64\<close> is an integer
  multiple \<open>m * 2 ^ (e - 52)\<close> of a power of two, with \<open>\<bar>m\<bar> < 2 ^ 53\<close> and an exponent
  \<open>e\<close> from \<open>-1022\<close> to \<open>1023\<close>, and \<open>+\<close>, \<open>-\<close> and \<open>*\<close> return the \<open>float64\<close> nearest to
  the exact result, the one with an even \<open>m\<close> when two are equally near.

  For a positive \<open>x\<close>, \<open>binaryExponent x\<close> is the \<open>e\<close> with \<open>2 ^ e \<le> x < 2 ^ (e + 1)\<close>. For
  \<open>x\<close> other than zero, \<open>ulp x\<close> is the distance between the \<open>float64\<close> numbers around \<open>x\<close>:
  \<open>2 ^ (e - 52)\<close>, and \<open>2 ^ (- 1074)\<close> below \<open>2 ^ (- 1022)\<close>, where the subnormal numbers
  are. \<open>roundFloat64 x\<close> is the multiple of \<open>ulp x\<close> nearest to \<open>x\<close>, with an even multiplier
  on a tie. A result beyond the largest \<open>float64\<close>, about \<open>1.8e308\<close>, which Go replaces by
  an infinity, is not modelled: \<open>roundFloat64\<close> rounds it as if the exponent had no upper
  limit. \<open>isFloat64 x\<close> says that \<open>x\<close> is one of the numbers a \<open>float64\<close> can hold.
\<close>

definition binaryExponent :: "real \<Rightarrow> int" where
  "binaryExponent x = (if 1 \<le> x then bitlen \<lfloor>x\<rfloor> - 1 else - bitlen (\<lceil>1 / x\<rceil> - 1))"

definition ulp :: "real \<Rightarrow> real" where
  "ulp x =
     (let e = max (binaryExponent \<bar>x\<bar>) (- 1022)
      in if 52 \<le> e then 2 ^ nat (e - 52) else 1 / 2 ^ nat (52 - e))"

definition roundHalfEven :: "real \<Rightarrow> int" where
  "roundHalfEven y =
     (let f = \<lfloor>y\<rfloor>; d = y - of_int f
      in if d < 1 / 2 then f else if 1 / 2 < d then f + 1 else if even f then f else f + 1)"

definition roundFloat64 :: "real \<Rightarrow> float64" where
  "roundFloat64 x = (if x = 0 then 0 else of_int (roundHalfEven (x / ulp x)) * ulp x)"

definition isFloat64 :: "real \<Rightarrow> bool" where
  "isFloat64 x \<longleftrightarrow> roundFloat64 x = x"

text \<open>
  \<open>Sub\<close>, \<open>Mul\<close> and \<open>Add\<close> of \<open>mathutil\<close> as above, each coordinate rounded, and \<open>zoom\<close>
  (main.go, lines 66 to 68) with them: \<open>p.Sub(c).Mul(s).Add(c)\<close> rounds three times in
  each coordinate. Every method returns its result in a new \<open>Vector2D\<close>, and the three
  operations are taken to round one by one, as they do when the compiler does not fuse
  the multiplication with the addition (Go's default for amd64 and for WebAssembly).
\<close>

definition SubFloat64 :: "Vector2D \<Rightarrow> Vector2D \<Rightarrow> Vector2D" where
  "SubFloat64 a b = \<lparr>X = roundFloat64 (X a - X b), Y = roundFloat64 (Y a - Y b)\<rparr>"

definition MulFloat64 :: "Vector2D \<Rightarrow> float64 \<Rightarrow> Vector2D" where
  "MulFloat64 a k = \<lparr>X = roundFloat64 (X a * k), Y = roundFloat64 (Y a * k)\<rparr>"

definition AddFloat64 :: "Vector2D \<Rightarrow> Vector2D \<Rightarrow> Vector2D" where
  "AddFloat64 a b = \<lparr>X = roundFloat64 (X a + X b), Y = roundFloat64 (Y a + Y b)\<rparr>"

definition zoomFloat64 :: "Vector2D \<Rightarrow> Vector2D \<Rightarrow> float64 \<Rightarrow> Vector2D" where
  "zoomFloat64 p c s = AddFloat64 (MulFloat64 (SubFloat64 p c) s) c"

text \<open>One coordinate of \<open>zoomFloat64\<close>.\<close>

definition zoomCoordinate :: "float64 \<Rightarrow> float64 \<Rightarrow> float64 \<Rightarrow> float64" where
  "zoomCoordinate p c s = roundFloat64 (roundFloat64 (roundFloat64 (p - c) * s) + c)"

text \<open>
  \<open>exactZoom p c s\<close>: none of the three operations of \<open>zoom p c s\<close> rounds, in either
  coordinate, because each exact result is a \<open>float64\<close>.
\<close>

definition exactZoom :: "Vector2D \<Rightarrow> Vector2D \<Rightarrow> float64 \<Rightarrow> bool" where
  "exactZoom p c s \<longleftrightarrow>
     isFloat64 (X p - X c) \<and> isFloat64 ((X p - X c) * s) \<and> isFloat64 ((X p - X c) * s + X c) \<and>
     isFloat64 (Y p - Y c) \<and> isFloat64 ((Y p - Y c) * s) \<and> isFloat64 ((Y p - Y c) * s + Y c)"

section \<open>The game state\<close>

text \<open>
  \<open>Coin\<close> embeds a \<open>*Vector3D\<close>, whose fields \<open>X\<close>, \<open>Y\<close>, \<open>Z\<close> the code reads as \<open>c.X\<close>,
  \<open>c.Y\<close>, \<open>c.Z\<close>; \<open>Player\<close> and \<open>CoinHitEffect\<close> embed a \<open>*Vector2D\<close>. The embedded
  vectors are fields of the records here (\<open>cX\<close>, \<open>cY\<close>, \<open>cZ\<close>; \<open>pos\<close>; \<open>place\<close>).
\<close>

record Coin =
  cX :: float64
  cY :: float64
  cZ :: float64
  vr :: float64
  hit :: bool

record CoinHitEffect =
  place :: Vector2D
  ticks :: uint64
  gain :: int64

record Player =
  pos :: Vector2D
  v :: Vector2D
  r :: float64
  life :: float64

datatype GameMode = GameModeTitle | GameModePlaying | GameModeGameOver

text \<open>
  The fields of \<open>Game\<close> that \<open>Update\<close> computes with. The identifiers, the touch context
  and the random generator are collaborators: what they return in one tick is the tick's
  \<open>Input\<close>.
\<close>

record Game =
  mode :: GameMode
  ticksFromModeStart :: uint64
  score :: int64
  points :: "Vector2D list"
  player :: Player
  coins :: "Coin list"
  coinHitEffects :: "CoinHitEffect list"
  zoomScale :: float64
  ticksFromAllPointsOut :: uint64

text \<open>
  One tick's answers of the collaborators: \<open>g.touchContext.IsJustTouched()\<close>, the value of
  \<open>g.random.Int()\<close> (never negative), and for the \<open>i\<close>-th call of \<open>lo.Sample(g.points)\<close>
  in the tick the index it draws (read modulo the length of the sequence).
\<close>

record Input =
  justTouched :: bool
  randomInt :: nat
  sampleIndex :: "nat \<Rightarrow> nat"

datatype panic = NilPointerDereference | IndexOutOfRange


section \<open>Mode changes and initialization\<close>

text \<open>\<open>setNextMode\<close> (main.go, lines 595 to 598).\<close>

definition setNextMode :: "Game \<Rightarrow> GameMode \<Rightarrow> Game" where
  "setNextMode g m = g\<lparr>mode := m, ticksFromModeStart := 0\<rparr>"

text \<open>The four points of the base shape (main.go, lines 639 to 643).\<close>

definition basePoints :: "Vector2D list" where
  "basePoints =
     (let p1 = \<lparr>X = 50, Y = screenHeight - 100\<rparr>;
          p2 = \<lparr>X = screenWidth - 50, Y = screenHeight - 100\<rparr>;
          p0 = Add (Mul (Normalize (Rotate (Sub p2 p1) (pi / 3))) 150) p1;
          p3 = Add (Mul (Normalize (Rotate (Sub p1 p2) (- pi / 3))) 150) p2
      in [p0, p1, p2, p3])"

text \<open>
  \<open>initialize\<close> (main.go, lines 600 to 661) overwrites every field of the state that the
  model keeps, so it is a constant: \<open>lo.Times(5, ...)\<close> runs the chained pass five times.
\<close>

definition initialize :: Game where
  "initialize =
     setNextMode
       \<lparr>mode = GameModeTitle,
        ticksFromModeStart = 0,
        score = 0,
        points = (expandPoints ^^ 5) basePoints,
        player = \<lparr>pos = \<lparr>X = screenWidth / 2, Y = screenHeight / 2 + 10\<rparr>,
                  v = \<lparr>X = 0, Y = 0.01\<rparr>,
                  r = playerHitR,
                  life = 100.0\<rparr>,
        coins = [],
        coinHitEffects = [],
        zoomScale = 1.0,
        ticksFromAllPointsOut = 0\<rparr>
       GameModeTitle"

section \<open>One tick in Playing mode\<close>

text \<open>Lines 235 to 237: a counter that has started keeps counting.\<close>

definition countAllPointsOut :: "Game \<Rightarrow> Game" where
  "countAllPointsOut g =
     (if ticksFromAllPointsOut g > 0
      then g\<lparr>ticksFromAllPointsOut := ticksFromAllPointsOut g + 1\<rparr> else g)"

text \<open>Lines 239 to 248: the scale grows and is cut at the ceiling of the current tier.\<close>

definition growZoomScale :: "Game \<Rightarrow> Game" where
  "growZoomScale g =
     (let z = zoomScale g * 1.00002 in
      if ticksFromModeStart g < 60 * 60 then g\<lparr>zoomScale := min z 1.010\<rparr>
      else if ticksFromModeStart g < 75 * 60 then g\<lparr>zoomScale := min z 1.015\<rparr>
      else if ticksFromModeStart g < 90 * 60 then g\<lparr>zoomScale := min z 1.020\<rparr>
      else g\<lparr>zoomScale := min z 1.03\<rparr>)"

text \<open>Lines 250 to 259.\<close>

definition spawnRate :: "Game \<Rightarrow> nat" where
  "spawnRate g =
     (if zoomScale g < 1.015 then 20
      else if zoomScale g < 1.020 then 10
      else if zoomScale g < 1.03 then 5
      else 2)"

text \<open>
  Lines 261 to 271: up to 100 samples of the boundary, keeping the one nearest to the
  player and stopping at the first kept sample nearer than 50. \<open>p\<close> is \<open>None\<close> for the
  \<open>nil\<close> pointer the loop starts with.
\<close>

function sampleLoop ::
  "nat \<Rightarrow> (nat \<Rightarrow> nat) \<Rightarrow> Vector2D list \<Rightarrow> Vector2D \<Rightarrow> Vector2D option \<Rightarrow> Vector2D option"
where
  "sampleLoop i smp ps c p =
     (if i < 100
      then (let q = ps ! (smp i mod length ps);
                distance = Norm (Sub q c)
            in if (case p of None \<Rightarrow> True | Some p' \<Rightarrow> Norm (Sub p' c) > distance)
               then (if distance < 50 then Some q
                     else sampleLoop (i + 1) smp ps c (Some q))
               else sampleLoop (i + 1) smp ps c p)
      else p)"
  by pat_completeness auto
termination
  by (relation "measure (\<lambda>(i, smp, ps, c, p). 100 - i)") auto

text \<open>
  Lines 260 to 281. On an empty boundary \<open>lo.Sample\<close> returns the zero value of
  \<open>*Vector2D\<close>, a \<open>nil\<close> pointer, and \<open>q.Sub\<close> on it panics. Otherwise the first sample
  is always kept, so \<open>p\<close> is set when the loop ends.
\<close>

definition spawnCoin :: "Input \<Rightarrow> Game \<Rightarrow> panic + Game" where
  "spawnCoin inp g =
     (if randomInt inp mod spawnRate g = 0
      then (if points g = [] then Inl NilPointerDereference
            else (case sampleLoop 0 (sampleIndex inp) (points g) (pos (player g)) None of
                    None \<Rightarrow> Inl NilPointerDereference
                  | Some p \<Rightarrow>
                      Inr (g\<lparr>coins := coins g @
                             [\<lparr>cX = X p, cY = Y p, cZ = 0.000001, vr = 0, hit = False\<rparr>]\<rparr>)))
      else Inr g)"

text \<open>
  Lines 283 to 288: the velocity is scaled by 1.02 below the cruising speed 2.0, and cut
  to length 2.0 above it. The second test reads the velocity the first one left.
\<close>

definition cruise :: "Vector2D \<Rightarrow> Vector2D" where
  "cruise u =
     (let u1 = (if Norm u < 2.0 then Mul u 1.02 else u)
      in if Norm u1 > 2.0 then Mul (Normalize u1) 2.0 else u1)"

definition accelerate :: "Game \<Rightarrow> Game" where
  "accelerate g = g\<lparr>player := (player g)\<lparr>v := cruise (v (player g))\<rparr>\<rparr>"

text \<open>Lines 290 to 301: one more chained pass while there are fewer than 500 points.\<close>

definition subdivide :: "Game \<Rightarrow> Game" where
  "subdivide g = (if length (points g) < 500 then g\<lparr>points := expandPoints (points g)\<rparr> else g)"

text \<open>Lines 303 to 305: a tap turns the velocity by a quarter turn.\<close>

definition turnOnTap :: "Input \<Rightarrow> Game \<Rightarrow> Game" where
  "turnOnTap inp g =
     (if justTouched inp then g\<lparr>player := (player g)\<lparr>v := Rotate (v (player g)) (pi / 2)\<rparr>\<rparr>
      else g)"

text \<open>Lines 307 to 319: the player moves and is kept on the screen, one bound at a time.\<close>

definition keepOnScreen :: "Vector2D \<Rightarrow> Vector2D" where
  "keepOnScreen q0 =
     (let q1 = (if X q0 < 0 then q0\<lparr>X := 0\<rparr> else q0);
          q2 = (if X q1 > screenWidth then q1\<lparr>X := screenWidth\<rparr> else q1);
          q3 = (if Y q2 < 0 then q2\<lparr>Y := 0\<rparr> else q2)
      in if Y q3 > screenHeight then q3\<lparr>Y := screenHeight\<rparr> else q3)"

definition movePlayer :: "Game \<Rightarrow> Game" where
  "movePlayer g =
     g\<lparr>player := (player g)\<lparr>pos := keepOnScreen (Add (pos (player g)) (v (player g)))\<rparr>\<rparr>"

text \<open>Line 321.\<close>

definition loseLife :: "Game \<Rightarrow> Game" where
  "loseLife g = g\<lparr>player := (player g)\<lparr>life := life (player g) - 0.2\<rparr>\<rparr>"

text \<open>Lines 323 to 327: the boundary is zoomed only while the counter is zero.\<close>

definition zoomPoints :: "Game \<Rightarrow> Game" where
  "zoomPoints g =
     (if ticksFromAllPointsOut g = 0
      then g\<lparr>points := map (\<lambda>p. zoom p (pos (player g)) (zoomScale g)) (points g)\<rparr>
      else g)"

text \<open>Lines 329 to 336: every coin is zoomed, comes nearer and grows.\<close>

definition zoomCoin :: "Game \<Rightarrow> Coin \<Rightarrow> Coin" where
  "zoomCoin g c =
     (let q = zoom \<lparr>X = cX c, Y = cY c\<rparr> (pos (player g)) (zoomScale g);
          z = cZ c + 1.0 * zoomScale g
      in c\<lparr>cX := X q, cY := Y q, cZ := z, vr := 10.0 * z / coinHitZ\<rparr>)"

definition zoomCoins :: "Game \<Rightarrow> Game" where
  "zoomCoins g = g\<lparr>coins := map (zoomCoin g) (coins g)\<rparr>"

text \<open>Lines 338 to 341.\<close>

definition ageEffects :: "Game \<Rightarrow> Game" where
  "ageEffects g = g\<lparr>coinHitEffects := map (\<lambda>e. e\<lparr>ticks := ticks e + 1\<rparr>) (coinHitEffects g)\<rparr>"

text \<open>
  Lines 343 to 368, the body of the loop over the coins: the hit test, the gain, the new
  effect and the healing, capped at 100. The coin is returned with its \<open>hit\<close> flag.
\<close>

definition isHit :: "Game \<Rightarrow> Coin \<Rightarrow> bool" where
  "isHit g c \<longleftrightarrow>
     vr c > 1.0 \<and>
     (cX c - X (pos (player g)))\<^sup>2 + (cY c - Y (pos (player g)))\<^sup>2 < (vr c + r (player g))\<^sup>2"

definition hitGain :: "Coin \<Rightarrow> int64" where
  "hitGain c = (if cZ c < coinHitZ then 1000 else 200)"

definition heal :: "float64 \<Rightarrow> float64" where
  "heal l = (let l1 = l + 50 in if l1 > 100.0 then 100.0 else l1)"

definition hitCoin :: "Coin \<Rightarrow> Game \<Rightarrow> Coin \<times> Game" where
  "hitCoin c g =
     (if isHit g c
      then (c\<lparr>hit := True\<rparr>,
            g\<lparr>score := score g + hitGain c,
              coinHitEffects := coinHitEffects g @
                [\<lparr>place = \<lparr>X = cX c, Y = cY c\<rparr>, ticks = 0, gain = hitGain c\<rparr>],
              player := (player g)\<lparr>life := heal (life (player g))\<rparr>\<rparr>)
      else (c, g))"

fun hitLoop :: "Coin list \<Rightarrow> Game \<Rightarrow> Coin list \<times> Game" where
  "hitLoop [] g = ([], g)"
| "hitLoop (c # cs) g =
     (let (c', g1) = hitCoin c g;
          (cs', g2) = hitLoop cs g1
      in (c' # cs', g2))"

definition hitCoins :: "Game \<Rightarrow> Game" where
  "hitCoins g = (let (cs, g1) = hitLoop (coins g) g in g1\<lparr>coins := cs\<rparr>)"

text \<open>The expanded screen rectangle of lines 372 and 383.\<close>

definition onScreen :: "Vector2D \<Rightarrow> bool" where
  "onScreen p \<longleftrightarrow> X p > - 50 \<and> X p < screenWidth + 50 \<and> Y p > - 50 \<and> Y p < screenHeight + 50"

text \<open>
  Lines 370 to 380: the first point on the screen becomes the first point. When the loop
  passes the last point with the counter at zero, the counter starts.
\<close>

function trimFrontLoop :: "nat \<Rightarrow> Game \<Rightarrow> Game" where
  "trimFrontLoop i g =
     (if i < length (points g)
      then (if onScreen (points g ! i) then g\<lparr>points := drop i (points g)\<rparr>
            else trimFrontLoop (i + 1)
                   (if ticksFromAllPointsOut g = 0 \<and> i = length (points g) - 1
                    then g\<lparr>ticksFromAllPointsOut := ticksFromAllPointsOut g + 1\<rparr> else g))
      else g)"
  by pat_completeness auto
termination
  by (relation "measure (\<lambda>(i, g). length (points g) - i)") auto

definition trimFront :: "Game \<Rightarrow> Game" where
  "trimFront g = trimFrontLoop 0 g"

text \<open>
  Lines 381 to 387: the last point on the screen becomes the last point. \<open>n\<close> is \<open>i + 1\<close>
  for the loop's \<open>i\<close>, which runs from \<open>len(g.points) - 1\<close> down to 0.
\<close>

fun trimBackLoop :: "nat \<Rightarrow> Game \<Rightarrow> Game" where
  "trimBackLoop 0 g = g"
| "trimBackLoop (Suc i) g =
     (if onScreen (points g ! i) then g\<lparr>points := take (i + 1) (points g)\<rparr>
      else trimBackLoop i g)"

definition trimBack :: "Game \<Rightarrow> Game" where
  "trimBack g = trimBackLoop (length (points g)) g"

text \<open>
  What the two loops leave of a sequence, as one list function (\<open>trim_points\<close> below
  proves it from the loops): with a point on the screen, the sequence from the first such
  point to the last; with none, the whole sequence.
\<close>

definition trimmed :: "Vector2D list \<Rightarrow> Vector2D list" where
  "trimmed ps =
     (if \<exists>p \<in> set ps. onScreen p
      then rev (dropWhile (\<lambda>p. \<not> onScreen p) (rev (dropWhile (\<lambda>p. \<not> onScreen p) ps)))
      else ps)"

text \<open>Lines 389 to 398.\<close>

definition dropCoins :: "Game \<Rightarrow> Game" where
  "dropCoins g =
     g\<lparr>coins := filter (\<lambda>c. \<not> hit c \<and>
                          cX c > - 50 \<and> cX c < screenWidth + 50 \<and>
                          cY c > - 50 \<and> cY c < screenHeight + 50 \<and>
                          cZ c < 1000) (coins g)\<rparr>"

definition dropEffects :: "Game \<Rightarrow> Game" where
  "dropEffects g = g\<lparr>coinHitEffects := filter (\<lambda>e. ticks e < 60) (coinHitEffects g)\<rparr>"

text \<open>Lines 400 to 411.\<close>

definition checkGameOver :: "Game \<Rightarrow> Game" where
  "checkGameOver g =
     (if life (player g) \<le> 0 \<or> ticksFromAllPointsOut g > 160
      then setNextMode g GameModeGameOver else g)"

text \<open>
  The case \<open>GameModePlaying\<close> (lines 226 to 411) in the order of the source. \<open>beforeHits\<close>
  is the state the loop over the coins starts from, \<open>beforeTrim\<close> the state the two
  trimming loops start from.
\<close>

definition beforeHits :: "Input \<Rightarrow> Game \<Rightarrow> Game" where
  "beforeHits inp g =
     ageEffects (zoomCoins (zoomPoints (loseLife (movePlayer (turnOnTap inp
       (subdivide (accelerate g)))))))"

definition beforeTrim :: "Input \<Rightarrow> Game \<Rightarrow> Game" where
  "beforeTrim inp g = hitCoins (beforeHits inp g)"

definition afterSpawn :: "Input \<Rightarrow> Game \<Rightarrow> Game" where
  "afterSpawn inp g =
     checkGameOver (dropEffects (dropCoins (trimBack (trimFront (beforeTrim inp g)))))"

definition updatePlaying :: "Input \<Rightarrow> Game \<Rightarrow> panic + Game" where
  "updatePlaying inp g =
     (case spawnCoin inp (growZoomScale (countAllPointsOut g)) of
        Inl e \<Rightarrow> Inl e
      | Inr g1 \<Rightarrow> Inr (afterSpawn inp g1))"

section \<open>Update\<close>

text \<open>
  \<open>Update\<close> (main.go, lines 205 to 420); \<open>startTick\<close> is line 208. Logging, sound and
  the ranking do not change the state. A panic of the tick is the value \<open>Inl\<close>.
\<close>

definition startTick :: "Game \<Rightarrow> Game" where
  "startTick g = g\<lparr>ticksFromModeStart := ticksFromModeStart g + 1\<rparr>"

definition Update :: "Input \<Rightarrow> Game \<Rightarrow> panic + Game" where
  "Update inp g =
     (let g0 = startTick g in
      case mode g0 of
        GameModeTitle \<Rightarrow>
          Inr (if justTouched inp then setNextMode g0 GameModePlaying else g0)
      | GameModePlaying \<Rightarrow> updatePlaying inp g0
      | GameModeGameOver \<Rightarrow>
          Inr (if ticksFromModeStart g0 > 60 \<and> justTouched inp then initialize else g0))"

text \<open>
  \<open>drawFractal\<close> (main.go, line 432) reads \<open>g.points[0]\<close> and
  \<open>g.points[len(g.points)-1]\<close> with no check; on an empty sequence the index is out of
  range and the program panics.
\<close>

definition drawFractalEnds :: "Game \<Rightarrow> panic + Vector2D \<times> Vector2D" where
  "drawFractalEnds g =
     (if points g = [] then Inl IndexOutOfRange else Inr (hd (points g), last (points g)))"


section \<open>Auxiliary notions for the claims\<close>

text \<open>The ceiling that lines 240 to 248 apply at tick \<open>t\<close> of the mode.\<close>

definition zoomCeiling :: "uint64 \<Rightarrow> float64" where
  "zoomCeiling t =
     (if t < 60 * 60 then 1.010
      else if t < 75 * 60 then 1.015
      else if t < 90 * 60 then 1.020
      else 1.03)"

text \<open>
  What is true of the zoom scale in every state that \<open>initialize\<close> and \<open>Update\<close> produce:
  it lies between 1.0 and 1.03, it is still 1.0 on the title screen, and in Playing mode
  it is below the ceiling of the current tick.
\<close>

definition zoomInv :: "Game \<Rightarrow> bool" where
  "zoomInv g \<longleftrightarrow>
     1 \<le> zoomScale g \<and> zoomScale g \<le> 1.03 \<and>
     (mode g = GameModeTitle \<longrightarrow> zoomScale g = 1) \<and>
     (mode g = GameModePlaying \<longrightarrow> zoomScale g \<le> zoomCeiling (ticksFromModeStart g))"

text \<open>
  What is true of the life in every state that \<open>initialize\<close> and \<open>Update\<close> produce: it is
  above \<open>- 0.2\<close> and at most 100, and it is above 0 as long as the game is not over.
\<close>

definition lifeInv :: "Game \<Rightarrow> bool" where
  "lifeInv g \<longleftrightarrow>
     - 0.2 < life (player g) \<and> life (player g) \<le> 100 \<and>
     (mode g \<noteq> GameModeGameOver \<longrightarrow> 0 < life (player g))"

text \<open>
  States and inputs for the examples: a tick with no touch and no coin spawned (\<open>1\<close> is
  not a multiple of any spawn rate), and a game in Playing mode with a boundary of one
  segment and the player flying down at cruising speed.
\<close>

definition quietInput :: Input where
  "quietInput = \<lparr>justTouched = False, randomInt = 1, sampleIndex = (\<lambda>i. 0)\<rparr>"

definition flyingGame :: Game where
  "flyingGame =
     \<lparr>mode = GameModePlaying,
      ticksFromModeStart = 100,
      score = 0,
      points = [\<lparr>X = 100, Y = 300\<rparr>, \<lparr>X = 400, Y = 300\<rparr>],
      player = \<lparr>pos = \<lparr>X = 320, Y = 250\<rparr>, v = \<lparr>X = 0, Y = 2\<rparr>, r = playerHitR, life = 50\<rparr>,
      coins = [],
      coinHitEffects = [],
      zoomScale = 1.002,
      ticksFromAllPointsOut = 0\<rparr>"

text \<open>
  \<open>lastLifeGame\<close> is \<open>flyingGame\<close> with the life that 499 subtractions of \<open>0.2\<close> from
  \<open>100.0\<close> leave in \<open>float64\<close> arithmetic, \<open>0.19999999999911677\<close>: \<open>0.2\<close> is not a binary
  fraction, so the life does not stay on multiples of \<open>0.2\<close>. \<open>rescuedGame\<close> is
  \<open>flyingGame\<close> with a life of \<open>0.2\<close> and one coin right in front of the player.
\<close>

definition lastLifeGame :: Game where
  "lastLifeGame =
     flyingGame\<lparr>player := (player flyingGame)\<lparr>life := 1801439850940243 / 9007199254740992\<rparr>\<rparr>"

definition nearCoin :: Coin where
  "nearCoin = \<lparr>cX = 320, cY = 252, cZ = 150, vr = 8, hit = False\<rparr>"

definition rescuedGame :: Game where
  "rescuedGame = flyingGame\<lparr>player := (player flyingGame)\<lparr>life := 0.2\<rparr>, coins := [nearCoin]\<rparr>"

text \<open>
  \<open>departedGame\<close> is \<open>flyingGame\<close> with a boundary far to the left of the screen, and
  \<open>frozenGame\<close> is \<open>departedGame\<close> five ticks after the boundary left the screen, with
  one coin \<open>farCoin\<close> on the screen, away from the player.
  \<open>edgeGame\<close> is \<open>flyingGame\<close> with a boundary that leaves the screen through its right
  edge, and \<open>spawnInput\<close> is a tick whose random number asks for a coin.
\<close>

definition departedGame :: Game where
  "departedGame = flyingGame\<lparr>points := [\<lparr>X = - 1000, Y = 300\<rparr>, \<lparr>X = - 700, Y = 300\<rparr>]\<rparr>"

definition farCoin :: Coin where
  "farCoin = \<lparr>cX = 420, cY = 352, cZ = 100, vr = 5, hit = False\<rparr>"

definition frozenGame :: Game where
  "frozenGame = departedGame\<lparr>coins := [farCoin], ticksFromAllPointsOut := 5\<rparr>"

definition edgeGame :: Game where
  "edgeGame = flyingGame\<lparr>points := [\<lparr>X = 680, Y = 240\<rparr>, \<lparr>X = 980, Y = 240\<rparr>]\<rparr>"

definition spawnInput :: Input where
  "spawnInput = \<lparr>justTouched = False, randomInt = 0, sampleIndex = (\<lambda>i. 0)\<rparr>"

text \<open>\<open>startedGame\<close> is the game right after the touch that leaves the title screen.\<close>

definition startedGame :: Game where
  "startedGame = setNextMode (startTick initialize) GameModePlaying"

text \<open>The states after one and after two quiet ticks of \<open>edgeGame\<close>.\<close>

definition edgeGame1 :: Game where
  "edgeGame1 = afterSpawn quietInput (growZoomScale (countAllPointsOut (startTick edgeGame)))"

definition edgeGame2 :: Game where
  "edgeGame2 = afterSpawn quietInput (growZoomScale (countAllPointsOut (startTick edgeGame1)))"

section \<open>Facts about the fractal generator\<close>

declare expandLoop.simps [simp del]
declare sampleLoop.simps [simp del]
declare trimFrontLoop.simps [simp del]

lemma expandLine_length: "length (expandLine s t) = 5"
  by (simp add: expandLine_def Let_def)

text \<open>The loop appends one detour per segment, in order.\<close>

lemma expandLoop_concat:
  "expandLoop i ps acc =
     acc @ concat (map (\<lambda>j. if j > 0 then tl (expandLine (ps ! j) (ps ! (j + 1)))
                            else expandLine (ps ! j) (ps ! (j + 1)))
                       [i ..< length ps - 1])"
proof (induction i ps acc rule: expandLoop.induct)
  case (1 i ps acc)
  show ?case
  proof (cases "i + 1 < length ps")
    case True
    then have "[i ..< length ps - 1] = i # [i + 1 ..< length ps - 1]"
      by (simp add: upt_conv_Cons)
    then show ?thesis
      using "1.IH" [OF True] True by (subst expandLoop.simps) simp
  next
    case False
    then show ?thesis by (subst expandLoop.simps) simp
  qed
qed

lemma expandLoop_length:
  "length (expandLoop i ps acc) =
     length acc + (if i + 1 < length ps
                   then (if i = 0 then 4 * (length ps - 1) + 1 else 4 * (length ps - 1 - i))
                   else 0)"
proof (induction i ps acc rule: expandLoop.induct)
  case (1 i ps acc)
  show ?case
  proof (cases "i + 1 < length ps")
    case True
    then show ?thesis
      using "1.IH" [OF True]
      by (subst expandLoop.simps) (auto simp: expandLine_length)
  next
    case False
    then show ?thesis by (subst expandLoop.simps) simp
  qed
qed

lemma expandPoints_length:
  "length (expandPoints ps) = (if 2 \<le> length ps then 4 * (length ps - 1) + 1 else 0)"
  by (simp add: expandPoints_def expandLoop_length)

lemma expandPoints_short: "length ps \<le> 1 \<Longrightarrow> expandPoints ps = []"
  using expandPoints_length [of ps] by simp

lemma map_positive_indices:
  "map (\<lambda>j. if 0 < j then A j else B j) [Suc 0 ..< N] = map A [Suc 0 ..< N]"
  by (rule map_cong) auto

text \<open>The spike: the middle point in coordinates, and the equal sides of its triangle.\<close>

lemma expandLine_middle:
  "expandLine s t ! 2 =
     \<lparr>X = X s + (X t - X s) / 2 + (Y t - Y s) * sqrt 3 / 6,
      Y = Y s + (Y t - Y s) / 2 - (X t - X s) * sqrt 3 / 6\<rparr>"
  by (simp add: expandLine_def Let_def Add_def Sub_def Mul_def Div_def Rotate_def cos_60 sin_60
      field_simps)

lemma Sub_Add: "Sub (Add a b) b = a"
  by (simp add: Sub_def Add_def)

lemma spike_algebra:
  fixes a b q :: real
  assumes "q * q = 3"
  shows "(a / 6 + b * q / 6)\<^sup>2 + (b / 6 - a * q / 6)\<^sup>2 = (a / 3)\<^sup>2 + (b / 3)\<^sup>2"
    and "(b * q / 6 - a / 6)\<^sup>2 + (- b / 6 - a * q / 6)\<^sup>2 = (a / 3)\<^sup>2 + (b / 3)\<^sup>2"
proof -
  have "(a / 6 + b * q / 6)\<^sup>2 + (b / 6 - a * q / 6)\<^sup>2 =
        (a\<^sup>2 + b\<^sup>2) / 36 + (q * q) * (a\<^sup>2 + b\<^sup>2) / 36"
    by (simp add: power2_eq_square field_simps)
  also have "\<dots> = (a / 3)\<^sup>2 + (b / 3)\<^sup>2"
    by (simp only: assms) (simp add: power2_eq_square field_simps)
  finally show "(a / 6 + b * q / 6)\<^sup>2 + (b / 6 - a * q / 6)\<^sup>2 = (a / 3)\<^sup>2 + (b / 3)\<^sup>2" .
  have "(b * q / 6 - a / 6)\<^sup>2 + (- b / 6 - a * q / 6)\<^sup>2 =
        (a\<^sup>2 + b\<^sup>2) / 36 + (q * q) * (a\<^sup>2 + b\<^sup>2) / 36"
    by (simp add: power2_eq_square field_simps)
  also have "\<dots> = (a / 3)\<^sup>2 + (b / 3)\<^sup>2"
    by (simp only: assms) (simp add: power2_eq_square field_simps)
  finally show "(b * q / 6 - a / 6)\<^sup>2 + (- b / 6 - a * q / 6)\<^sup>2 = (a / 3)\<^sup>2 + (b / 3)\<^sup>2" .
qed

lemma spike_sides:
  "Norm (Sub (expandLine s t ! 2) (expandLine s t ! 1)) =
     Norm (Sub (expandLine s t ! 3) (expandLine s t ! 1)) \<and>
   Norm (Sub (expandLine s t ! 2) (expandLine s t ! 3)) =
     Norm (Sub (expandLine s t ! 3) (expandLine s t ! 1))"
proof -
  define a where "a = X t - X s"
  define b where "b = Y t - Y s"
  have one: "(a / 6 + b * sqrt 3 / 6)\<^sup>2 + (b / 6 - a * sqrt 3 / 6)\<^sup>2 = (a / 3)\<^sup>2 + (b / 3)\<^sup>2"
    by (rule spike_algebra(1)) simp
  have two: "(b * sqrt 3 / 6 - a / 6)\<^sup>2 + (- b / 6 - a * sqrt 3 / 6)\<^sup>2 = (a / 3)\<^sup>2 + (b / 3)\<^sup>2"
    by (rule spike_algebra(2)) simp
  have E: "expandLine s t =
      [s, \<lparr>X = X s + a / 3, Y = Y s + b / 3\<rparr>,
       \<lparr>X = X s + a / 2 + b * sqrt 3 / 6, Y = Y s + b / 2 - a * sqrt 3 / 6\<rparr>,
       \<lparr>X = X s + 2 * a / 3, Y = Y s + 2 * b / 3\<rparr>, t]"
    by (simp add: expandLine_def Let_def Add_def Sub_def Mul_def Div_def Rotate_def cos_60 sin_60
        a_def b_def field_simps)
  have d31: "Sub (expandLine s t ! 2) (expandLine s t ! 1) =
      \<lparr>X = a / 6 + b * sqrt 3 / 6, Y = b / 6 - a * sqrt 3 / 6\<rparr>"
    by (simp add: E Sub_def)
  have d21: "Sub (expandLine s t ! 3) (expandLine s t ! 1) = \<lparr>X = a / 3, Y = b / 3\<rparr>"
    by (simp add: E Sub_def)
  have d32: "Sub (expandLine s t ! 2) (expandLine s t ! 3) =
      \<lparr>X = b * sqrt 3 / 6 - a / 6, Y = - b / 6 - a * sqrt 3 / 6\<rparr>"
    by (simp add: E Sub_def)
  show ?thesis
    by (simp only: d31 d21 d32 Norm_def Vector2D.simps one two)
qed

section \<open>Facts about float64 rounding\<close>

text \<open>
  \<open>roundFloat64\<close> is within half a unit in the last place of its argument, which is a
  relative error of at most \<open>2 ^ (- 53)\<close> from \<open>2 ^ (- 1022)\<close> on; and \<open>zoomFloat64\<close> is \<open>zoom\<close>
  when no operation rounds.
\<close>

lemma roundFloat64_zero [simp]: "roundFloat64 0 = 0"
  by (simp add: roundFloat64_def)

lemma ulp_positive: "0 < ulp x"
  by (simp add: ulp_def Let_def)

lemma roundHalfEven_error: "\<bar>of_int (roundHalfEven y) - y\<bar> \<le> 1 / 2"
  unfolding roundHalfEven_def Let_def by (auto split: if_splits)

lemma roundFloat64_error: "\<bar>roundFloat64 x - x\<bar> \<le> ulp x / 2"
proof (cases "x = 0")
  case True
  then show ?thesis using ulp_positive [of 0] by simp
next
  case False
  have "roundFloat64 x - x = (of_int (roundHalfEven (x / ulp x)) - x / ulp x) * ulp x"
    using False ulp_positive [of x] by (simp add: roundFloat64_def algebra_simps)
  then have "\<bar>roundFloat64 x - x\<bar> = \<bar>of_int (roundHalfEven (x / ulp x)) - x / ulp x\<bar> * ulp x"
    using ulp_positive [of x] by (simp add: abs_mult)
  also have "\<dots> \<le> (1 / 2) * ulp x"
    using roundHalfEven_error [of "x / ulp x"] ulp_positive [of x]
    by (intro mult_right_mono) simp_all
  finally show ?thesis by simp
qed

lemma binaryExponent_bounds:
  assumes "0 < x"
  shows "2 powr real_of_int (binaryExponent x) \<le> x \<and> x < 2 powr real_of_int (binaryExponent x + 1)"
proof (cases "1 \<le> x")
  case True
  let ?n = "\<lfloor>x\<rfloor>"
  have n: "0 < ?n" using True by linarith
  from bitlen_bounds [OF n] have b: "2 ^ nat (bitlen ?n - 1) \<le> ?n" "?n < 2 ^ nat (bitlen ?n)"
    by simp_all
  have k: "1 \<le> bitlen ?n" using n bitlen_eq_zero_iff [of ?n] bitlen_nonneg [of ?n] by linarith
  have e: "binaryExponent x = bitlen ?n - 1" using True by (simp add: binaryExponent_def)
  have "2 powr real_of_int (bitlen ?n - 1) = 2 ^ nat (bitlen ?n - 1)"
    using k by (simp add: powr_realpow [symmetric])
  also have "\<dots> \<le> real_of_int ?n" using b(1) by (metis of_int_le_iff of_int_numeral of_int_power)
  also have "\<dots> \<le> x" by simp
  finally have lo: "2 powr real_of_int (binaryExponent x) \<le> x" by (simp add: e)
  have "?n + 1 \<le> 2 ^ nat (bitlen ?n)" using b(2) by simp
  then have "real_of_int (?n + 1) \<le> 2 ^ nat (bitlen ?n)"
    by (metis of_int_le_iff of_int_numeral of_int_power)
  moreover have "x < real_of_int (?n + 1)" by linarith
  moreover have "2 powr real_of_int (bitlen ?n) = 2 ^ nat (bitlen ?n)"
    using k by (simp add: powr_realpow [symmetric])
  ultimately have "x < 2 powr real_of_int (bitlen ?n)" by linarith
  then have hi: "x < 2 powr real_of_int (binaryExponent x + 1)" by (simp add: e)
  from lo hi show ?thesis ..
next
  case False
  let ?n = "\<lceil>1 / x\<rceil> - 1"
  have x1: "1 < 1 / x" using False assms by simp
  have n: "0 < ?n" using x1 by linarith
  from bitlen_bounds [OF n] have b: "2 ^ nat (bitlen ?n - 1) \<le> ?n" "?n < 2 ^ nat (bitlen ?n)"
    by simp_all
  have k: "1 \<le> bitlen ?n" using n bitlen_eq_zero_iff [of ?n] bitlen_nonneg [of ?n] by linarith
  have e: "binaryExponent x = - bitlen ?n" using False by (simp add: binaryExponent_def)
  have p1: "2 powr real_of_int (bitlen ?n) = 2 ^ nat (bitlen ?n)"
    using k by (simp add: powr_realpow [symmetric])
  have p2: "2 powr real_of_int (bitlen ?n - 1) = 2 ^ nat (bitlen ?n - 1)"
    using k by (simp add: powr_realpow [symmetric])
  have "?n + 1 \<le> 2 ^ nat (bitlen ?n)" using b(2) by simp
  then have "real_of_int (?n + 1) \<le> 2 ^ nat (bitlen ?n)"
    by (metis of_int_le_iff of_int_numeral of_int_power)
  moreover have "1 / x \<le> real_of_int (?n + 1)" by simp
  ultimately have "1 / x \<le> 2 powr real_of_int (bitlen ?n)" using p1 by linarith
  then have "1 / (2 powr real_of_int (bitlen ?n)) \<le> x"
    using assms by (simp add: field_simps)
  then have lo: "2 powr real_of_int (binaryExponent x) \<le> x"
    by (simp add: e powr_minus_divide)
  have "real_of_int (2 ^ nat (bitlen ?n - 1)) \<le> real_of_int ?n" using b(1) by linarith
  then have "2 powr real_of_int (bitlen ?n - 1) \<le> real_of_int ?n" using p2 by simp
  moreover have "real_of_int ?n < 1 / x" by linarith
  ultimately have "2 powr real_of_int (bitlen ?n - 1) < 1 / x" by linarith
  then have "x < 1 / 2 powr real_of_int (bitlen ?n - 1)"
    using assms by (simp add: field_simps)
  also have "\<dots> = 2 powr real_of_int (binaryExponent x + 1)"
    by (simp add: e powr_minus_divide [symmetric])
  finally have hi: "x < 2 powr real_of_int (binaryExponent x + 1)" .
  from lo hi show ?thesis ..
qed

lemma ulp_powr: "ulp x = 2 powr real_of_int (max (binaryExponent \<bar>x\<bar>) (- 1022) - 52)"
proof -
  have a: "2 ^ nat (e - 52) = 2 powr real_of_int (e - 52)" if "52 \<le> e" for e :: int
    using that by (simp add: powr_realpow [symmetric])
  have b: "1 / 2 ^ nat (52 - e) = 2 powr real_of_int (e - 52)" if "\<not> 52 \<le> e" for e :: int
  proof -
    have "2 ^ nat (52 - e) = 2 powr real_of_int (52 - e)"
      using that by (simp add: powr_realpow [symmetric])
    then have "1 / 2 ^ nat (52 - e) = 1 / 2 powr real_of_int (52 - e)" by (simp only:)
    also have "\<dots> = 2 powr (- real_of_int (52 - e))" by (rule powr_minus_divide [symmetric])
    also have "- real_of_int (52 - e) = real_of_int (e - 52)" by simp
    finally show ?thesis .
  qed
  show ?thesis
    unfolding ulp_def Let_def using a b by (simp only: split: if_splits) auto
qed

lemma ulp_relative:
  assumes "1 / 2 ^ 1022 \<le> \<bar>x\<bar>"
  shows "ulp x \<le> \<bar>x\<bar> / 2 ^ 52"
proof -
  have pos: "0 < \<bar>x\<bar>" using assms by (smt (verit) divide_pos_pos zero_less_power)
  from binaryExponent_bounds [OF pos]
  have lo: "2 powr real_of_int (binaryExponent \<bar>x\<bar>) \<le> \<bar>x\<bar>"
    and hi: "\<bar>x\<bar> < 2 powr real_of_int (binaryExponent \<bar>x\<bar> + 1)" by simp_all
  have "(1 :: real) / 2 ^ 1022 = 2 powr real_of_int (- 1022)"
    by (simp add: powr_minus_divide powr_realpow [symmetric])
  with assms hi have "2 powr real_of_int (- 1022) < 2 powr real_of_int (binaryExponent \<bar>x\<bar> + 1)"
    by linarith
  then have "- 1022 < binaryExponent \<bar>x\<bar> + 1" by simp
  then have m: "max (binaryExponent \<bar>x\<bar>) (- 1022) = binaryExponent \<bar>x\<bar>" by simp
  have "ulp x = 2 powr (real_of_int (binaryExponent \<bar>x\<bar>) - 52)"
    by (simp add: ulp_powr m)
  also have "\<dots> = 2 powr real_of_int (binaryExponent \<bar>x\<bar>) / 2 ^ 52"
    by (simp add: powr_diff powr_realpow [symmetric])
  also have "\<dots> \<le> \<bar>x\<bar> / 2 ^ 52" using lo by (simp add: divide_right_mono)
  finally show ?thesis .
qed

lemma roundFloat64_relative_error:
  "1 / 2 ^ 1022 \<le> \<bar>x\<bar> \<Longrightarrow> \<bar>roundFloat64 x - x\<bar> \<le> \<bar>x\<bar> / 2 ^ 53"
  using roundFloat64_error [of x] ulp_relative [of x] by simp

lemma ulp_subnormal:
  assumes "x \<noteq> 0" "\<bar>x\<bar> < 1 / 2 ^ 1022"
  shows "ulp x = 1 / 2 ^ 1074"
proof -
  have pos: "0 < \<bar>x\<bar>" using assms by simp
  from binaryExponent_bounds [OF pos]
  have lo: "2 powr real_of_int (binaryExponent \<bar>x\<bar>) \<le> \<bar>x\<bar>" by simp
  have "(1 :: real) / 2 ^ 1022 = 2 powr real_of_int (- 1022)"
    by (simp add: powr_minus_divide powr_realpow [symmetric])
  with assms lo have "2 powr real_of_int (binaryExponent \<bar>x\<bar>) < 2 powr real_of_int (- 1022)"
    by linarith
  then have "binaryExponent \<bar>x\<bar> < - 1022" by simp
  then have m: "max (binaryExponent \<bar>x\<bar>) (- 1022) = - 1022" by simp
  show ?thesis by (simp add: ulp_def m)
qed

lemma roundFloat64_near:
  assumes "\<bar>x\<bar> \<le> M" "1 \<le> M"
  shows "\<bar>roundFloat64 x - x\<bar> \<le> M / 2 ^ 52"
proof -
  consider "x = 0" | "x \<noteq> 0" "\<bar>x\<bar> < 1 / 2 ^ 1022" | "1 / 2 ^ 1022 \<le> \<bar>x\<bar>"
    by linarith
  then show ?thesis
  proof cases
    case 1
    then show ?thesis using assms by simp
  next
    case 2
    have "\<bar>roundFloat64 x - x\<bar> \<le> 1 / 2 ^ 1074 / 2"
      using roundFloat64_error [of x] ulp_subnormal [OF 2] by simp
    also have "\<dots> \<le> 1 / 2 ^ 52" by simp
    also have "\<dots> \<le> M / 2 ^ 52" using assms by (simp add: divide_right_mono)
    finally show ?thesis .
  next
    case 3
    then have "\<bar>roundFloat64 x - x\<bar> \<le> \<bar>x\<bar> / 2 ^ 53" by (rule roundFloat64_relative_error)
    also have "\<dots> \<le> M / 2 ^ 53" using assms by (simp add: divide_right_mono)
    also have "\<dots> \<le> M / 2 ^ 52" using assms by (simp add: field_simps)
    finally show ?thesis .
  qed
qed

lemma product_near:
  fixes a b t r :: real
  assumes "\<bar>a - b\<bar> \<le> e1" "\<bar>t - r\<bar> \<le> e2" "\<bar>b\<bar> \<le> Mb" "\<bar>t\<bar> \<le> Mt"
  shows "\<bar>a * t - b * r\<bar> \<le> e1 * Mt + Mb * e2"
proof -
  have "a * t - b * r = (a - b) * t + b * (t - r)" by (simp add: algebra_simps)
  then have "\<bar>a * t - b * r\<bar> \<le> \<bar>a - b\<bar> * \<bar>t\<bar> + \<bar>b\<bar> * \<bar>t - r\<bar>"
    by (metis abs_mult abs_triangle_ineq)
  also have "\<dots> \<le> e1 * Mt + Mb * e2"
    using assms by (intro add_mono mult_mono) (auto intro: order_trans [OF abs_ge_zero])
  finally show ?thesis .
qed

lemma product_bound:
  fixes a t :: real
  assumes "\<bar>a\<bar> \<le> Ma" "\<bar>t\<bar> \<le> Mt"
  shows "\<bar>a * t\<bar> \<le> Ma * Mt"
  using assms by (simp add: abs_mult mult_mono)

text \<open>
  A zoom in \<open>float64\<close> is near the exact one, and so are two zooms and the zoom by the
  product of the scales: for coordinates up to \<open>2 ^ 20\<close> and scales up to 2, the two differ
  by less than a millionth.
\<close>

lemma zoomFloat64_coordinates:
  "X (zoomFloat64 p c s) = zoomCoordinate (X p) (X c) s"
  "Y (zoomFloat64 p c s) = zoomCoordinate (Y p) (Y c) s"
  by (simp_all add: zoomFloat64_def AddFloat64_def MulFloat64_def SubFloat64_def
      zoomCoordinate_def)

lemma zoomCoordinate_near:
  assumes p: "\<bar>p\<bar> \<le> 2 ^ 23" and c: "\<bar>c\<bar> \<le> 2 ^ 20" and s: "\<bar>s\<bar> \<le> 5"
  shows "\<bar>zoomCoordinate p c s - ((p - c) * s + c)\<bar> \<le> 1 / 2 ^ 24"
proof -
  let ?d = "p - c"
  let ?a1 = "roundFloat64 ?d"
  let ?a2 = "roundFloat64 (?a1 * s)"
  let ?a3 = "roundFloat64 (?a2 + c)"
  have p': "\<bar>p\<bar> \<le> 8388608" and c': "\<bar>c\<bar> \<le> 1048576" using p c by simp_all
  have d: "\<bar>?d\<bar> \<le> 9437184" using p' c' by linarith
  have "\<bar>?a1 - ?d\<bar> \<le> 9437184 / 2 ^ 52" using d by (rule roundFloat64_near) simp
  then have e1: "\<bar>?a1 - ?d\<bar> \<le> 1 / 268435456" by simp
  have b1: "\<bar>?a1\<bar> \<le> 9437185" using d e1 by linarith
  have m: "\<bar>?a1 * s\<bar> \<le> 9437185 * 5" using b1 s by (rule product_bound)
  have "\<bar>?a2 - ?a1 * s\<bar> \<le> (9437185 * 5) / 2 ^ 52" using m by (rule roundFloat64_near) simp
  then have e2: "\<bar>?a2 - ?a1 * s\<bar> \<le> 1 / 67108864" by simp
  have "\<bar>?a1 * s - ?d * s\<bar> \<le> (1 / 268435456) * 5 + 9437184 * 0"
    using e1 _ d s by (rule product_near) simp
  then have p1: "\<bar>?a1 * s - ?d * s\<bar> \<le> 1 / 33554432" by simp
  have b2: "\<bar>?a2\<bar> \<le> 47185926" using m e2 by linarith
  have sum: "\<bar>?a2 + c\<bar> \<le> 48234502" using b2 c' by linarith
  have "\<bar>?a3 - (?a2 + c)\<bar> \<le> 48234502 / 2 ^ 52" using sum by (rule roundFloat64_near) simp
  then have e3: "\<bar>?a3 - (?a2 + c)\<bar> \<le> 1 / 67108864" by simp
  from e2 p1 e3 have "\<bar>?a3 - (?d * s + c)\<bar> \<le> 1 / 16777216" by linarith
  then show ?thesis by (simp add: zoomCoordinate_def)
qed

lemma zoomCoordinate_twice:
  assumes p: "\<bar>p\<bar> \<le> 2 ^ 20" and c: "\<bar>c\<bar> \<le> 2 ^ 20"
    and s1: "\<bar>s1\<bar> \<le> 2" and s2: "\<bar>s2\<bar> \<le> 2"
  shows "\<bar>zoomCoordinate (zoomCoordinate p c s1) c s2 -
         zoomCoordinate p c (roundFloat64 (s1 * s2))\<bar> \<le> 1 / 10 ^ 6"
proof -
  let ?E1 = "(p - c) * s1 + c"
  let ?z1 = "zoomCoordinate p c s1"
  let ?t = "roundFloat64 (s1 * s2)"
  let ?E = "(p - c) * (s1 * s2) + c"
  have p': "\<bar>p\<bar> \<le> 1048576" and c': "\<bar>c\<bar> \<le> 1048576" using p c by simp_all
  have d: "\<bar>p - c\<bar> \<le> 2097152" using p' c' by linarith
  have n1: "\<bar>?z1 - ?E1\<bar> \<le> 1 / 2 ^ 24"
    using p c s1 by (intro zoomCoordinate_near) simp_all
  then have n1': "\<bar>?z1 - ?E1\<bar> \<le> 1 / 16777216" by simp
  have ds: "\<bar>(p - c) * s1\<bar> \<le> 2097152 * 2" using d s1 by (rule product_bound)
  then have E1: "\<bar>?E1\<bar> \<le> 5242880" using c' by linarith
  have "\<bar>?z1\<bar> \<le> 8388608" using E1 n1' by linarith
  then have z1: "\<bar>?z1\<bar> \<le> 2 ^ 23" by simp
  have "\<bar>zoomCoordinate ?z1 c s2 - ((?z1 - c) * s2 + c)\<bar> \<le> 1 / 2 ^ 24"
    using z1 c s2 by (intro zoomCoordinate_near) simp_all
  then have n2: "\<bar>zoomCoordinate ?z1 c s2 - ((?z1 - c) * s2 + c)\<bar> \<le> 1 / 16777216"
    by simp
  have x1: "\<bar>(?z1 - c) - (?E1 - c)\<bar> \<le> 1 / 16777216" using n1' by linarith
  have x2: "\<bar>?E1 - c\<bar> \<le> 5242880" using ds by linarith
  have "\<bar>(?z1 - c) * s2 - (?E1 - c) * s2\<bar> \<le> (1 / 16777216) * 2 + 5242880 * 0"
    using x1 _ x2 s2 by (rule product_near) simp
  then have q: "\<bar>(?z1 - c) * s2 - (?E1 - c) * s2\<bar> \<le> 1 / 8388608" by simp
  have eq: "(?E1 - c) * s2 + c = ?E" by (simp add: algebra_simps)
  from n2 q eq have A: "\<bar>zoomCoordinate ?z1 c s2 - ?E\<bar> \<le> 3 / 16777216" by linarith
  have ss: "\<bar>s1 * s2\<bar> \<le> 2 * 2" using s1 s2 by (rule product_bound)
  have "\<bar>?t - s1 * s2\<bar> \<le> (2 * 2) / 2 ^ 52" using ss by (rule roundFloat64_near) simp
  then have t: "\<bar>?t - s1 * s2\<bar> \<le> 1 / 1125899906842624" by simp
  have tb: "\<bar>?t\<bar> \<le> 5" using ss t by linarith
  have "\<bar>zoomCoordinate p c ?t - ((p - c) * ?t + c)\<bar> \<le> 1 / 2 ^ 24"
    using p c tb by (intro zoomCoordinate_near) simp_all
  then have n3: "\<bar>zoomCoordinate p c ?t - ((p - c) * ?t + c)\<bar> \<le> 1 / 16777216" by simp
  have x3: "\<bar>(p - c) - (p - c)\<bar> \<le> 0" by simp
  have "\<bar>(p - c) * ?t - (p - c) * (s1 * s2)\<bar> \<le> 0 * 5 + 2097152 * (1 / 1125899906842624)"
    using x3 t d tb by (rule product_near)
  then have r: "\<bar>(p - c) * ?t - (p - c) * (s1 * s2)\<bar> \<le> 1 / 536870912" by simp
  from n3 r have B: "\<bar>zoomCoordinate p c ?t - ?E\<bar> \<le> 1 / 16777216 + 1 / 536870912"
    by linarith
  from A B have "\<bar>zoomCoordinate ?z1 c s2 - zoomCoordinate p c ?t\<bar> \<le> 1 / 1000000"
    by linarith
  then show ?thesis by simp
qed

lemma zoomFloat64_exact: "exactZoom p c s \<Longrightarrow> zoomFloat64 p c s = zoom p c s"
  by (simp add: exactZoom_def isFloat64_def zoomFloat64_def AddFloat64_def MulFloat64_def
      SubFloat64_def zoom_def Add_def Mul_def Sub_def)

section \<open>Facts about the steps of a Playing tick\<close>

subsection \<open>What each step leaves unchanged\<close>

lemma countAllPointsOut_frame [simp]:
  "mode (countAllPointsOut g) = mode g"
  "ticksFromModeStart (countAllPointsOut g) = ticksFromModeStart g"
  "score (countAllPointsOut g) = score g"
  "points (countAllPointsOut g) = points g"
  "player (countAllPointsOut g) = player g"
  "coins (countAllPointsOut g) = coins g"
  "coinHitEffects (countAllPointsOut g) = coinHitEffects g"
  "zoomScale (countAllPointsOut g) = zoomScale g"
  by (simp_all add: countAllPointsOut_def)

lemma growZoomScale_frame [simp]:
  "mode (growZoomScale g) = mode g"
  "ticksFromModeStart (growZoomScale g) = ticksFromModeStart g"
  "score (growZoomScale g) = score g"
  "points (growZoomScale g) = points g"
  "player (growZoomScale g) = player g"
  "coins (growZoomScale g) = coins g"
  "coinHitEffects (growZoomScale g) = coinHitEffects g"
  "ticksFromAllPointsOut (growZoomScale g) = ticksFromAllPointsOut g"
  by (simp_all add: growZoomScale_def Let_def)

lemma accelerate_frame [simp]:
  "mode (accelerate g) = mode g"
  "ticksFromModeStart (accelerate g) = ticksFromModeStart g"
  "score (accelerate g) = score g"
  "points (accelerate g) = points g"
  "coins (accelerate g) = coins g"
  "coinHitEffects (accelerate g) = coinHitEffects g"
  "zoomScale (accelerate g) = zoomScale g"
  "ticksFromAllPointsOut (accelerate g) = ticksFromAllPointsOut g"
  "pos (player (accelerate g)) = pos (player g)"
  "r (player (accelerate g)) = r (player g)"
  "life (player (accelerate g)) = life (player g)"
  by (simp_all add: accelerate_def)

lemma subdivide_frame [simp]:
  "mode (subdivide g) = mode g"
  "ticksFromModeStart (subdivide g) = ticksFromModeStart g"
  "score (subdivide g) = score g"
  "player (subdivide g) = player g"
  "coins (subdivide g) = coins g"
  "coinHitEffects (subdivide g) = coinHitEffects g"
  "zoomScale (subdivide g) = zoomScale g"
  "ticksFromAllPointsOut (subdivide g) = ticksFromAllPointsOut g"
  by (simp_all add: subdivide_def)

lemma turnOnTap_frame [simp]:
  "mode (turnOnTap inp g) = mode g"
  "ticksFromModeStart (turnOnTap inp g) = ticksFromModeStart g"
  "score (turnOnTap inp g) = score g"
  "points (turnOnTap inp g) = points g"
  "coins (turnOnTap inp g) = coins g"
  "coinHitEffects (turnOnTap inp g) = coinHitEffects g"
  "zoomScale (turnOnTap inp g) = zoomScale g"
  "ticksFromAllPointsOut (turnOnTap inp g) = ticksFromAllPointsOut g"
  "pos (player (turnOnTap inp g)) = pos (player g)"
  "r (player (turnOnTap inp g)) = r (player g)"
  "life (player (turnOnTap inp g)) = life (player g)"
  by (simp_all add: turnOnTap_def)

lemma movePlayer_frame [simp]:
  "mode (movePlayer g) = mode g"
  "ticksFromModeStart (movePlayer g) = ticksFromModeStart g"
  "score (movePlayer g) = score g"
  "points (movePlayer g) = points g"
  "coins (movePlayer g) = coins g"
  "coinHitEffects (movePlayer g) = coinHitEffects g"
  "zoomScale (movePlayer g) = zoomScale g"
  "ticksFromAllPointsOut (movePlayer g) = ticksFromAllPointsOut g"
  "v (player (movePlayer g)) = v (player g)"
  "r (player (movePlayer g)) = r (player g)"
  "life (player (movePlayer g)) = life (player g)"
  by (simp_all add: movePlayer_def)

lemma loseLife_frame [simp]:
  "mode (loseLife g) = mode g"
  "ticksFromModeStart (loseLife g) = ticksFromModeStart g"
  "score (loseLife g) = score g"
  "points (loseLife g) = points g"
  "coins (loseLife g) = coins g"
  "coinHitEffects (loseLife g) = coinHitEffects g"
  "zoomScale (loseLife g) = zoomScale g"
  "ticksFromAllPointsOut (loseLife g) = ticksFromAllPointsOut g"
  "pos (player (loseLife g)) = pos (player g)"
  "v (player (loseLife g)) = v (player g)"
  "r (player (loseLife g)) = r (player g)"
  by (simp_all add: loseLife_def)

lemma zoomPoints_frame [simp]:
  "mode (zoomPoints g) = mode g"
  "ticksFromModeStart (zoomPoints g) = ticksFromModeStart g"
  "score (zoomPoints g) = score g"
  "player (zoomPoints g) = player g"
  "coins (zoomPoints g) = coins g"
  "coinHitEffects (zoomPoints g) = coinHitEffects g"
  "zoomScale (zoomPoints g) = zoomScale g"
  "ticksFromAllPointsOut (zoomPoints g) = ticksFromAllPointsOut g"
  by (simp_all add: zoomPoints_def)

lemma zoomCoins_frame [simp]:
  "mode (zoomCoins g) = mode g"
  "ticksFromModeStart (zoomCoins g) = ticksFromModeStart g"
  "score (zoomCoins g) = score g"
  "points (zoomCoins g) = points g"
  "player (zoomCoins g) = player g"
  "coinHitEffects (zoomCoins g) = coinHitEffects g"
  "zoomScale (zoomCoins g) = zoomScale g"
  "ticksFromAllPointsOut (zoomCoins g) = ticksFromAllPointsOut g"
  by (simp_all add: zoomCoins_def)

lemma ageEffects_frame [simp]:
  "mode (ageEffects g) = mode g"
  "ticksFromModeStart (ageEffects g) = ticksFromModeStart g"
  "score (ageEffects g) = score g"
  "points (ageEffects g) = points g"
  "player (ageEffects g) = player g"
  "coins (ageEffects g) = coins g"
  "zoomScale (ageEffects g) = zoomScale g"
  "ticksFromAllPointsOut (ageEffects g) = ticksFromAllPointsOut g"
  by (simp_all add: ageEffects_def)

lemma dropCoins_frame [simp]:
  "mode (dropCoins g) = mode g"
  "ticksFromModeStart (dropCoins g) = ticksFromModeStart g"
  "score (dropCoins g) = score g"
  "points (dropCoins g) = points g"
  "player (dropCoins g) = player g"
  "coinHitEffects (dropCoins g) = coinHitEffects g"
  "zoomScale (dropCoins g) = zoomScale g"
  "ticksFromAllPointsOut (dropCoins g) = ticksFromAllPointsOut g"
  by (simp_all add: dropCoins_def)

lemma dropEffects_frame [simp]:
  "mode (dropEffects g) = mode g"
  "ticksFromModeStart (dropEffects g) = ticksFromModeStart g"
  "score (dropEffects g) = score g"
  "points (dropEffects g) = points g"
  "player (dropEffects g) = player g"
  "coins (dropEffects g) = coins g"
  "zoomScale (dropEffects g) = zoomScale g"
  "ticksFromAllPointsOut (dropEffects g) = ticksFromAllPointsOut g"
  by (simp_all add: dropEffects_def)

lemma checkGameOver_frame [simp]:
  "score (checkGameOver g) = score g"
  "points (checkGameOver g) = points g"
  "player (checkGameOver g) = player g"
  "coins (checkGameOver g) = coins g"
  "coinHitEffects (checkGameOver g) = coinHitEffects g"
  "zoomScale (checkGameOver g) = zoomScale g"
  "ticksFromAllPointsOut (checkGameOver g) = ticksFromAllPointsOut g"
  by (simp_all add: checkGameOver_def setNextMode_def)

lemma accelerate_v [simp]: "v (player (accelerate g)) = cruise (v (player g))"
  by (simp add: accelerate_def)

lemma turnOnTap_v [simp]:
  "v (player (turnOnTap inp g)) = (if justTouched inp then Rotate (v (player g)) (pi / 2) else v (player g))"
  by (simp add: turnOnTap_def)

lemma movePlayer_pos [simp]:
  "pos (player (movePlayer g)) = keepOnScreen (Add (pos (player g)) (v (player g)))"
  by (simp add: movePlayer_def)

lemma loseLife_life [simp]: "life (player (loseLife g)) = life (player g) - 0.2"
  by (simp add: loseLife_def)

lemma subdivide_points [simp]:
  "points (subdivide g) = (if length (points g) < 500 then expandPoints (points g) else points g)"
  by (simp add: subdivide_def)

lemma zoomPoints_points [simp]:
  "points (zoomPoints g) =
     (if ticksFromAllPointsOut g = 0
      then map (\<lambda>p. zoom p (pos (player g)) (zoomScale g)) (points g) else points g)"
  by (simp add: zoomPoints_def)

lemma zoomCoins_coins [simp]: "coins (zoomCoins g) = map (zoomCoin g) (coins g)"
  by (simp add: zoomCoins_def)

lemma ageEffects_effects [simp]:
  "coinHitEffects (ageEffects g) = map (\<lambda>e. e\<lparr>ticks := ticks e + 1\<rparr>) (coinHitEffects g)"
  by (simp add: ageEffects_def)

lemma beforeHits_frame [simp]:
  "mode (beforeHits inp g) = mode g"
  "ticksFromModeStart (beforeHits inp g) = ticksFromModeStart g"
  "score (beforeHits inp g) = score g"
  "zoomScale (beforeHits inp g) = zoomScale g"
  "ticksFromAllPointsOut (beforeHits inp g) = ticksFromAllPointsOut g"
  "r (player (beforeHits inp g)) = r (player g)"
  by (simp_all add: beforeHits_def)

lemma beforeHits_life [simp]: "life (player (beforeHits inp g)) = life (player g) - 0.2"
  by (simp add: beforeHits_def)

lemma beforeHits_v:
  "v (player (beforeHits inp g)) =
     (if justTouched inp then Rotate (cruise (v (player g))) (pi / 2) else cruise (v (player g)))"
  by (simp add: beforeHits_def)

lemma beforeHits_pos:
  "pos (player (beforeHits inp g)) =
     keepOnScreen (Add (pos (player g)) (v (player (beforeHits inp g))))"
  by (simp add: beforeHits_def)

lemma beforeHits_points:
  "points (beforeHits inp g) =
     (if ticksFromAllPointsOut g = 0
      then map (\<lambda>p. zoom p (pos (player (beforeHits inp g))) (zoomScale g)) (points (subdivide g))
      else points (subdivide g))"
  by (simp add: beforeHits_def)

lemma zoomCoin_cong:
  "pos (player g) = pos (player h) \<Longrightarrow> zoomScale g = zoomScale h \<Longrightarrow> zoomCoin g = zoomCoin h"
  by (rule ext) (simp add: zoomCoin_def)

lemma beforeHits_coins: "coins (beforeHits inp g) = map (zoomCoin (beforeHits inp g)) (coins g)"
proof -
  let ?h = "zoomPoints (loseLife (movePlayer (turnOnTap inp (subdivide (accelerate g)))))"
  have "coins (beforeHits inp g) = map (zoomCoin ?h) (coins g)"
    by (simp add: beforeHits_def)
  moreover have "zoomCoin ?h = zoomCoin (beforeHits inp g)"
    by (rule zoomCoin_cong) (simp_all add: beforeHits_def)
  ultimately show ?thesis by simp
qed

lemma beforeHits_effects:
  "coinHitEffects (beforeHits inp g) = map (\<lambda>e. e\<lparr>ticks := ticks e + 1\<rparr>) (coinHitEffects g)"
  by (simp add: beforeHits_def)


subsection \<open>The loop over the coins\<close>

lemma isHit_cong:
  "pos (player g) = pos (player h) \<Longrightarrow> r (player g) = r (player h) \<Longrightarrow> isHit g = isHit h"
  by (rule ext) (simp add: isHit_def)

lemma hitCoin_frame [simp]:
  "mode (snd (hitCoin c g)) = mode g"
  "ticksFromModeStart (snd (hitCoin c g)) = ticksFromModeStart g"
  "points (snd (hitCoin c g)) = points g"
  "coins (snd (hitCoin c g)) = coins g"
  "zoomScale (snd (hitCoin c g)) = zoomScale g"
  "ticksFromAllPointsOut (snd (hitCoin c g)) = ticksFromAllPointsOut g"
  "pos (player (snd (hitCoin c g))) = pos (player g)"
  "v (player (snd (hitCoin c g))) = v (player g)"
  "r (player (snd (hitCoin c g))) = r (player g)"
  by (simp_all add: hitCoin_def)

lemma isHit_hitCoin [simp]: "isHit (snd (hitCoin c g)) = isHit g"
  by (rule isHit_cong) simp_all

lemma hitLoop_Cons [simp]:
  "hitLoop (c # cs) g =
     (fst (hitCoin c g) # fst (hitLoop cs (snd (hitCoin c g))),
      snd (hitLoop cs (snd (hitCoin c g))))"
  by (simp add: split_def Let_def)

declare hitLoop.simps(2) [simp del]

lemma hitLoop_frame [simp]:
  "mode (snd (hitLoop cs g)) = mode g"
  "ticksFromModeStart (snd (hitLoop cs g)) = ticksFromModeStart g"
  "points (snd (hitLoop cs g)) = points g"
  "coins (snd (hitLoop cs g)) = coins g"
  "zoomScale (snd (hitLoop cs g)) = zoomScale g"
  "ticksFromAllPointsOut (snd (hitLoop cs g)) = ticksFromAllPointsOut g"
  "pos (player (snd (hitLoop cs g))) = pos (player g)"
  "v (player (snd (hitLoop cs g))) = v (player g)"
  "r (player (snd (hitLoop cs g))) = r (player g)"
  by (induction cs arbitrary: g; simp)+

lemma hitLoop_coins:
  "fst (hitLoop cs g) = map (\<lambda>c. if isHit g c then c\<lparr>hit := True\<rparr> else c) cs"
proof (induction cs arbitrary: g)
  case Nil
  show ?case by simp
next
  case (Cons c cs)
  have "fst (hitCoin c g) = (if isHit g c then c\<lparr>hit := True\<rparr> else c)"
    by (simp add: hitCoin_def)
  then show ?case
    using Cons.IH [of "snd (hitCoin c g)"] by simp
qed

lemma hitLoop_score:
  "score (snd (hitLoop cs g)) = score g + sum_list (map hitGain (filter (isHit g) cs))"
proof (induction cs arbitrary: g)
  case Nil
  show ?case by simp
next
  case (Cons c cs)
  have "score (snd (hitCoin c g)) = (if isHit g c then score g + hitGain c else score g)"
    by (simp add: hitCoin_def)
  then show ?case
    using Cons.IH [of "snd (hitCoin c g)"] by simp
qed

lemma hitLoop_life:
  "life (player (snd (hitLoop cs g))) = (heal ^^ length (filter (isHit g) cs)) (life (player g))"
proof (induction cs arbitrary: g)
  case Nil
  show ?case by simp
next
  case (Cons c cs)
  have "life (player (snd (hitCoin c g))) =
          (if isHit g c then heal (life (player g)) else life (player g))"
    by (simp add: hitCoin_def)
  then show ?case
    using Cons.IH [of "snd (hitCoin c g)"] by (simp add: funpow_swap1)
qed

lemma heal_bounds: "l \<le> 100 \<Longrightarrow> l \<le> heal l \<and> heal l \<le> 100"
  by (simp add: heal_def Let_def)

lemma heal_funpow_bounds: "l \<le> 100 \<Longrightarrow> l \<le> (heal ^^ n) l \<and> (heal ^^ n) l \<le> 100"
proof (induction n)
  case 0
  then show ?case by simp
next
  case (Suc n)
  then have "(heal ^^ n) l \<le> 100" "l \<le> (heal ^^ n) l" by simp_all
  then show ?case using heal_bounds [of "(heal ^^ n) l"] by simp
qed

lemma hitCoins_eq:
  "hitCoins g = (snd (hitLoop (coins g) g))\<lparr>coins := fst (hitLoop (coins g) g)\<rparr>"
  by (simp add: hitCoins_def split_def Let_def)

lemma hitCoins_frame [simp]:
  "mode (hitCoins g) = mode g"
  "ticksFromModeStart (hitCoins g) = ticksFromModeStart g"
  "points (hitCoins g) = points g"
  "zoomScale (hitCoins g) = zoomScale g"
  "ticksFromAllPointsOut (hitCoins g) = ticksFromAllPointsOut g"
  "pos (player (hitCoins g)) = pos (player g)"
  "v (player (hitCoins g)) = v (player g)"
  "r (player (hitCoins g)) = r (player g)"
  by (simp_all add: hitCoins_eq)

lemma hitCoins_coins:
  "coins (hitCoins g) = map (\<lambda>c. if isHit g c then c\<lparr>hit := True\<rparr> else c) (coins g)"
  by (simp add: hitCoins_eq hitLoop_coins)

lemma hitCoins_score:
  "score (hitCoins g) = score g + sum_list (map hitGain (filter (isHit g) (coins g)))"
  by (simp add: hitCoins_eq hitLoop_score)

lemma hitCoins_life:
  "life (player (hitCoins g)) = (heal ^^ length (filter (isHit g) (coins g))) (life (player g))"
  by (simp add: hitCoins_eq hitLoop_life)


subsection \<open>Trimming\<close>

lemma trimFrontLoop_eq:
  "trimFrontLoop i g =
     (if \<exists>p \<in> set (drop i (points g)). onScreen p
      then g\<lparr>points := dropWhile (\<lambda>p. \<not> onScreen p) (drop i (points g))\<rparr>
      else if ticksFromAllPointsOut g = 0 \<and> i < length (points g)
           then g\<lparr>ticksFromAllPointsOut := 1\<rparr> else g)"
proof (induction i g rule: trimFrontLoop.induct)
  case (1 i g)
  show ?case
  proof (cases "i < length (points g)")
    case False
    then show ?thesis by (subst trimFrontLoop.simps) simp
  next
    case True
    then have split: "drop i (points g) = points g ! i # drop (i + 1) (points g)"
      by (simp add: Cons_nth_drop_Suc)
    show ?thesis
    proof (cases "onScreen (points g ! i)")
      case True
      with \<open>i < length (points g)\<close> split show ?thesis
        by (subst trimFrontLoop.simps) simp
    next
      case False
      let ?g' = "if ticksFromAllPointsOut g = 0 \<and> i = length (points g) - 1
                 then g\<lparr>ticksFromAllPointsOut := ticksFromAllPointsOut g + 1\<rparr> else g"
      have step: "trimFrontLoop i g = trimFrontLoop (i + 1) ?g'"
        using True False by (subst trimFrontLoop.simps) simp
      have pts: "points ?g' = points g" by simp
      note IH = "1.IH" [OF True False]
      show ?thesis
      proof (cases "ticksFromAllPointsOut g = 0 \<and> i = length (points g) - 1")
        case True
        then have "drop (i + 1) (points g) = []" by simp
        with True \<open>i < length (points g)\<close> False split IH step show ?thesis by simp
      next
        case False
        then have "?g' = g" by simp
        with IH step have "trimFrontLoop i g =
          (if \<exists>p \<in> set (drop (i + 1) (points g)). onScreen p
           then g\<lparr>points := dropWhile (\<lambda>p. \<not> onScreen p) (drop (i + 1) (points g))\<rparr>
           else if ticksFromAllPointsOut g = 0 \<and> i + 1 < length (points g)
                then g\<lparr>ticksFromAllPointsOut := 1\<rparr> else g)"
          by simp
        with False \<open>\<not> onScreen (points g ! i)\<close> \<open>i < length (points g)\<close> split show ?thesis
          by auto
      qed
    qed
  qed
qed

lemma trimFront_eq:
  "trimFront g =
     (if \<exists>p \<in> set (points g). onScreen p
      then g\<lparr>points := dropWhile (\<lambda>p. \<not> onScreen p) (points g)\<rparr>
      else if ticksFromAllPointsOut g = 0 \<and> points g \<noteq> []
           then g\<lparr>ticksFromAllPointsOut := 1\<rparr> else g)"
  by (simp add: trimFront_def trimFrontLoop_eq)

lemma trimBackLoop_eq:
  "n \<le> length (points g) \<Longrightarrow>
   trimBackLoop n g =
     (if \<exists>p \<in> set (take n (points g)). onScreen p
      then g\<lparr>points := rev (dropWhile (\<lambda>p. \<not> onScreen p) (rev (take n (points g))))\<rparr>
      else g)"
proof (induction n)
  case 0
  show ?case by simp
next
  case (Suc n)
  then have n: "n < length (points g)" by simp
  then have tk: "take (Suc n) (points g) = take n (points g) @ [points g ! n]"
    by (simp add: take_Suc_conv_app_nth)
  show ?case
  proof (cases "onScreen (points g ! n)")
    case True
    with tk show ?thesis by simp
  next
    case False
    with tk Suc.IH n show ?thesis by simp
  qed
qed

lemma trimBack_eq:
  "trimBack g =
     (if \<exists>p \<in> set (points g). onScreen p
      then g\<lparr>points := rev (dropWhile (\<lambda>p. \<not> onScreen p) (rev (points g)))\<rparr>
      else g)"
  by (simp add: trimBack_def trimBackLoop_eq)


lemma trimFront_frame [simp]:
  "mode (trimFront g) = mode g"
  "ticksFromModeStart (trimFront g) = ticksFromModeStart g"
  "score (trimFront g) = score g"
  "player (trimFront g) = player g"
  "coins (trimFront g) = coins g"
  "coinHitEffects (trimFront g) = coinHitEffects g"
  "zoomScale (trimFront g) = zoomScale g"
  by (simp_all add: trimFront_eq)

lemma trimBack_frame [simp]:
  "mode (trimBack g) = mode g"
  "ticksFromModeStart (trimBack g) = ticksFromModeStart g"
  "score (trimBack g) = score g"
  "player (trimBack g) = player g"
  "coins (trimBack g) = coins g"
  "coinHitEffects (trimBack g) = coinHitEffects g"
  "zoomScale (trimBack g) = zoomScale g"
  "ticksFromAllPointsOut (trimBack g) = ticksFromAllPointsOut g"
  by (simp_all add: trimBack_eq)

lemma trimFront_counter:
  "ticksFromAllPointsOut (trimFront g) =
     (if (\<forall>p \<in> set (points g). \<not> onScreen p) \<and> ticksFromAllPointsOut g = 0 \<and> points g \<noteq> []
      then 1 else ticksFromAllPointsOut g)"
  by (simp add: trimFront_eq)

lemma dropWhile_keeps: "\<exists>p \<in> set ps. Q p \<Longrightarrow> \<exists>p \<in> set (dropWhile (\<lambda>p. \<not> Q p) ps). Q p"
  by (induction ps) auto

lemma trim_points: "points (trimBack (trimFront g)) = trimmed (points g)"
proof (cases "\<exists>p \<in> set (points g). onScreen p")
  case True
  then have "\<exists>p \<in> set (dropWhile (\<lambda>p. \<not> onScreen p) (points g)). onScreen p"
    by (rule dropWhile_keeps)
  with True show ?thesis by (simp add: trimBack_eq trimFront_eq trimmed_def)
next
  case False
  then show ?thesis by (simp add: trimBack_eq trimFront_eq trimmed_def)
qed

lemma trimmed_nonempty: "ps \<noteq> [] \<Longrightarrow> trimmed ps \<noteq> []"
proof (cases "\<exists>p \<in> set ps. onScreen p")
  case True
  then have "\<exists>p \<in> set (dropWhile (\<lambda>p. \<not> onScreen p) ps). onScreen p"
    by (rule dropWhile_keeps)
  then have "\<exists>p \<in> set (rev (dropWhile (\<lambda>p. \<not> onScreen p) ps)). onScreen p"
    by simp
  then have "\<exists>p \<in> set (dropWhile (\<lambda>p. \<not> onScreen p) (rev (dropWhile (\<lambda>p. \<not> onScreen p) ps))). onScreen p"
    by (rule dropWhile_keeps)
  then have "dropWhile (\<lambda>p. \<not> onScreen p) (rev (dropWhile (\<lambda>p. \<not> onScreen p) ps)) \<noteq> []"
    by (metis empty_iff empty_set)
  with True show ?thesis by (simp only: trimmed_def if_True rev_is_Nil_conv) simp
next
  case False
  assume "ps \<noteq> []"
  with False show ?thesis by (simp add: trimmed_def)
qed

lemma trimmed_off_screen: "\<forall>p \<in> set ps. \<not> onScreen p \<Longrightarrow> trimmed ps = ps"
  by (simp add: trimmed_def)

subsection \<open>Spawning\<close>

lemma spawnCoin_frame:
  assumes "spawnCoin inp g = Inr g1"
  shows "mode g1 = mode g" "ticksFromModeStart g1 = ticksFromModeStart g" "score g1 = score g"
    "points g1 = points g" "player g1 = player g" "coinHitEffects g1 = coinHitEffects g"
    "zoomScale g1 = zoomScale g" "ticksFromAllPointsOut g1 = ticksFromAllPointsOut g"
    "length (coins g1) \<le> length (coins g) + 1"
  using assms by (auto simp: spawnCoin_def split: if_splits option.splits)

subsection \<open>The rest of a Playing tick\<close>

lemma beforeTrim_frame [simp]:
  "mode (beforeTrim inp g) = mode g"
  "ticksFromModeStart (beforeTrim inp g) = ticksFromModeStart g"
  "zoomScale (beforeTrim inp g) = zoomScale g"
  "ticksFromAllPointsOut (beforeTrim inp g) = ticksFromAllPointsOut g"
  "points (beforeTrim inp g) = points (beforeHits inp g)"
  "pos (player (beforeTrim inp g)) = pos (player (beforeHits inp g))"
  "v (player (beforeTrim inp g)) = v (player (beforeHits inp g))"
  "r (player (beforeTrim inp g)) = r (player g)"
  by (simp_all add: beforeTrim_def)

lemma afterSpawn_fields:
  "points (afterSpawn inp g) = trimmed (points (beforeTrim inp g))"
  "player (afterSpawn inp g) = player (beforeTrim inp g)"
  "score (afterSpawn inp g) = score (beforeTrim inp g)"
  "zoomScale (afterSpawn inp g) = zoomScale g"
  "ticksFromAllPointsOut (afterSpawn inp g) = ticksFromAllPointsOut (trimFront (beforeTrim inp g))"
  by (simp_all add: afterSpawn_def trim_points)

lemma afterSpawn_mode:
  "mode (afterSpawn inp g) =
     (if life (player (afterSpawn inp g)) \<le> 0 \<or> ticksFromAllPointsOut (afterSpawn inp g) > 160
      then GameModeGameOver else mode g)"
  by (simp add: afterSpawn_def checkGameOver_def setNextMode_def)

subsection \<open>Update, by mode\<close>

lemma startTick_frame [simp]:
  "mode (startTick g) = mode g"
  "score (startTick g) = score g"
  "points (startTick g) = points g"
  "player (startTick g) = player g"
  "coins (startTick g) = coins g"
  "coinHitEffects (startTick g) = coinHitEffects g"
  "zoomScale (startTick g) = zoomScale g"
  "ticksFromAllPointsOut (startTick g) = ticksFromAllPointsOut g"
  "ticksFromModeStart (startTick g) = ticksFromModeStart g + 1"
  by (simp_all add: startTick_def)

lemma Update_Title:
  "mode g = GameModeTitle \<Longrightarrow>
   Update inp g = Inr (if justTouched inp then setNextMode (startTick g) GameModePlaying
                       else startTick g)"
  by (simp add: Update_def Let_def)

lemma Update_GameOver:
  "mode g = GameModeGameOver \<Longrightarrow>
   Update inp g = Inr (if ticksFromModeStart g + 1 > 60 \<and> justTouched inp then initialize
                       else startTick g)"
  by (simp add: Update_def Let_def)

lemma Update_Playing:
  "mode g = GameModePlaying \<Longrightarrow>
   Update inp g =
     (case spawnCoin inp (growZoomScale (countAllPointsOut (startTick g))) of
        Inl e \<Rightarrow> Inl e | Inr g1 \<Rightarrow> Inr (afterSpawn inp g1))"
  by (simp add: Update_def Let_def updatePlaying_def)

lemma Update_PlayingE:
  assumes "mode g = GameModePlaying" "Update inp g = Inr g'"
  obtains g1 where "spawnCoin inp (growZoomScale (countAllPointsOut (startTick g))) = Inr g1"
    and "g' = afterSpawn inp g1"
  using assms by (auto simp: Update_Playing split: sum.splits)

lemma initialize_fields [simp]:
  "mode initialize = GameModeTitle"
  "ticksFromModeStart initialize = 0"
  "score initialize = 0"
  "points initialize = (expandPoints ^^ 5) basePoints"
  "coins initialize = []"
  "coinHitEffects initialize = []"
  "zoomScale initialize = 1"
  "ticksFromAllPointsOut initialize = 0"
  "life (player initialize) = 100"
  "r (player initialize) = playerHitR"
  "v (player initialize) = \<lparr>X = 0, Y = 0.01\<rparr>"
  by (simp_all add: initialize_def setNextMode_def)

subsection \<open>Lengths of vectors\<close>

lemma Norm_nonneg [simp]: "0 \<le> Norm a"
  by (simp add: Norm_def)

lemma Norm_Mul: "Norm (Mul a k) = \<bar>k\<bar> * Norm a"
proof -
  have "(X a * k)\<^sup>2 + (Y a * k)\<^sup>2 = k\<^sup>2 * ((X a)\<^sup>2 + (Y a)\<^sup>2)"
    by (simp add: power_mult_distrib algebra_simps)
  then show ?thesis
    by (simp add: Norm_def Mul_def real_sqrt_mult)
qed

lemma Norm_Div: "Norm (Div a k) = Norm a / \<bar>k\<bar>"
proof -
  have "(X a / k)\<^sup>2 + (Y a / k)\<^sup>2 = ((X a)\<^sup>2 + (Y a)\<^sup>2) / k\<^sup>2"
    by (simp add: power_divide add_divide_distrib)
  then show ?thesis
    by (simp add: Norm_def Div_def real_sqrt_divide)
qed

lemma Norm_Normalize: "Norm a \<noteq> 0 \<Longrightarrow> Norm (Normalize a) = 1"
  by (simp add: Normalize_def Norm_Div)

lemma rotation_identity:
  "(x * c - y * s)\<^sup>2 + (x * s + y * c)\<^sup>2 = (x\<^sup>2 + y\<^sup>2) * (s\<^sup>2 + c\<^sup>2)" for x y c s :: real
  by (simp add: power2_eq_square algebra_simps)

lemma Norm_Rotate: "Norm (Rotate a th) = Norm a"
  by (simp add: Norm_def Rotate_def rotation_identity)

lemma Norm_cruise: "Norm (cruise u) \<le> 2"
proof -
  define u1 where "u1 = (if Norm u < 2.0 then Mul u 1.02 else u)"
  have c: "cruise u = (if Norm u1 > 2.0 then Mul (Normalize u1) 2.0 else u1)"
    by (simp add: cruise_def u1_def Let_def)
  show ?thesis
  proof (cases "Norm u1 > 2")
    case True
    then have "Norm u1 \<noteq> 0" by simp
    then have "Norm (Mul (Normalize u1) 2) = 2"
      by (simp add: Norm_Mul Norm_Normalize)
    with True c show ?thesis by simp
  next
    case False
    with c show ?thesis by simp
  qed
qed

lemma cruise_at_speed: "Norm u = 2 \<Longrightarrow> cruise u = u"
  by (simp add: cruise_def Let_def)

subsection \<open>The zoom scale\<close>

lemma growZoomScale_eq:
  "growZoomScale g =
     g\<lparr>zoomScale := min (zoomScale g * 1.00002) (zoomCeiling (ticksFromModeStart g))\<rparr>"
  by (simp add: growZoomScale_def zoomCeiling_def Let_def)

lemma zoomCeiling_bounds: "1.01 \<le> zoomCeiling t \<and> zoomCeiling t \<le> 1.03"
  by (simp add: zoomCeiling_def)

lemma zoomCeiling_mono: "s \<le> t \<Longrightarrow> zoomCeiling s \<le> zoomCeiling t"
  by (auto simp: zoomCeiling_def)

lemma word_le_succ: "t \<noteq> - 1 \<Longrightarrow> t \<le> t + 1" for t :: uint64
  by (meson inc_less_eq_triv_imp nle_le)

lemma afterSpawn_ticks:
  "ticksFromModeStart (afterSpawn inp g) =
     (if life (player (afterSpawn inp g)) \<le> 0 \<or> ticksFromAllPointsOut (afterSpawn inp g) > 160
      then 0 else ticksFromModeStart g)"
  by (simp add: afterSpawn_def checkGameOver_def setNextMode_def)

lemma zoomInv_initialize: "zoomInv initialize"
  by (simp add: zoomInv_def)

lemma zoomScale_after_spawn:
  assumes "spawnCoin inp (growZoomScale (countAllPointsOut (startTick g))) = Inr g1"
  shows "zoomScale g1 = min (zoomScale g * 1.00002) (zoomCeiling (ticksFromModeStart g + 1))"
    and "ticksFromModeStart g1 = ticksFromModeStart g + 1"
    and "mode g1 = mode g"
  using spawnCoin_frame [OF assms] by (simp_all add: growZoomScale_eq)

subsection \<open>Ticks without a spawn\<close>

lemma quiet_spawn: "randomInt inp = 1 \<Longrightarrow> spawnCoin inp g = Inr g"
  by (simp add: spawnCoin_def spawnRate_def)

lemma quiet_tick:
  "mode g = GameModePlaying \<Longrightarrow> randomInt inp = 1 \<Longrightarrow>
   Update inp g = Inr (afterSpawn inp (growZoomScale (countAllPointsOut (startTick g))))"
  by (simp add: Update_Playing quiet_spawn)

lemma countAllPointsOut_counter [simp]:
  "ticksFromAllPointsOut (countAllPointsOut g) =
     (if ticksFromAllPointsOut g > 0 then ticksFromAllPointsOut g + 1
      else ticksFromAllPointsOut g)"
  by (simp add: countAllPointsOut_def)

lemma growZoomScale_zoomScale:
  "zoomScale (growZoomScale g) =
     min (zoomScale g * 1.00002) (zoomCeiling (ticksFromModeStart g))"
  by (simp add: growZoomScale_eq)

lemma life_after_spawn:
  "life (player (afterSpawn inp g)) =
     (heal ^^ length (filter (isHit (beforeHits inp g)) (coins (beforeHits inp g))))
       (life (player g) - 0.2)"
  by (simp add: afterSpawn_fields beforeTrim_def hitCoins_life)

lemma counter_after_spawn:
  "ticksFromAllPointsOut (afterSpawn inp g) =
     (if (\<forall>p \<in> set (points (beforeTrim inp g)). \<not> onScreen p) \<and>
         ticksFromAllPointsOut g = 0 \<and> points (beforeTrim inp g) \<noteq> []
      then 1 else ticksFromAllPointsOut g)"
  by (simp add: afterSpawn_fields trimFront_counter)

lemma quiet_flying:
  "Update quietInput flyingGame =
     Inr (afterSpawn quietInput (growZoomScale (countAllPointsOut (startTick flyingGame))))"
  by (rule quiet_tick) (simp_all add: flyingGame_def quietInput_def)

subsection \<open>The score as a signed number\<close>

lemma hitGain_sint: "sint (hitGain c) = (if cZ c < coinHitZ then 1000 else 200)"
  by (simp add: hitGain_def)

lemma sint_add_gain:
  "sint a + 1000 < 2 ^ 63 \<Longrightarrow> sint (a + hitGain c) = sint a + sint (hitGain c)" for a :: int64
proof -
  assume b: "sint a + 1000 < 2 ^ 63"
  have lo: "- (2 ^ 63) \<le> sint a" using sint_ge [of a] by simp
  have "sint (a + hitGain c) = signed_take_bit 63 (sint a + sint (hitGain c))"
    by (simp add: sint_word_ariths)
  also have "\<dots> = sint a + sint (hitGain c)"
    using b lo by (intro signed_take_bit_int_eq_self) (simp_all add: hitGain_sint)
  finally show ?thesis .
qed

lemma score_sum_bounds:
  "sint a + 1000 * int (length cs) < 2 ^ 63 \<Longrightarrow>
   sint a \<le> sint (a + sum_list (map hitGain cs)) \<and>
   sint (a + sum_list (map hitGain cs)) \<le> sint a + 1000 * int (length cs)" for a :: int64
proof (induction cs arbitrary: a)
  case Nil
  show ?case by simp
next
  case (Cons c cs)
  then have b: "sint a + 1000 < 2 ^ 63" by simp
  have s: "sint (a + hitGain c) = sint a + sint (hitGain c)"
    using b by (rule sint_add_gain)
  have g: "0 \<le> sint (hitGain c)" "sint (hitGain c) \<le> 1000"
    by (simp_all add: hitGain_sint)
  have "sint (a + hitGain c) + 1000 * int (length cs) < 2 ^ 63"
    using Cons.prems s g by simp
  from Cons.IH [OF this] s g show ?case
    by (simp add: add.assoc)
qed

lemma score_after_spawn:
  "score (afterSpawn inp g) =
     score g + sum_list (map hitGain (filter (isHit (beforeHits inp g)) (coins (beforeHits inp g))))"
  by (simp add: afterSpawn_fields beforeTrim_def hitCoins_score)

subsection \<open>The boundary in a tick\<close>

lemma expandPoints_funpow_length:
  "2 \<le> length ps \<Longrightarrow> length ((expandPoints ^^ n) ps) = 4 ^ n * (length ps - 1) + 1"
proof (induction n)
  case 0
  then show ?case by simp
next
  case (Suc n)
  then have l: "length ((expandPoints ^^ n) ps) = 4 ^ n * (length ps - 1) + 1" by simp
  have "1 \<le> (4::nat) ^ n * (length ps - 1)" using Suc.prems by simp
  with l have "2 \<le> length ((expandPoints ^^ n) ps)" by simp
  then show ?case by (simp add: expandPoints_length l)
qed

lemma basePoints_length: "length basePoints = 4"
  by (simp add: basePoints_def Let_def)

lemma initialize_length: "length (points initialize) = 3073"
  by (simp add: expandPoints_funpow_length basePoints_length)

lemma points_before_hits:
  assumes "spawnCoin inp (growZoomScale (countAllPointsOut (startTick g))) = Inr g1"
  shows "points (subdivide (accelerate g1)) =
           (if length (points g) < 500 then expandPoints (points g) else points g)"
    and "points (beforeHits inp g1) =
           (if ticksFromAllPointsOut g1 = 0
            then map (\<lambda>p. zoom p (pos (player (beforeHits inp g1))) (zoomScale g1))
                   (points (subdivide (accelerate g1)))
            else points (subdivide (accelerate g1)))"
    and "ticksFromAllPointsOut g1 =
           (if ticksFromAllPointsOut g > 0 then ticksFromAllPointsOut g + 1
            else ticksFromAllPointsOut g)"
  using spawnCoin_frame [OF assms] by (simp_all add: beforeHits_points)

lemma short_boundary_vanishes:
  assumes "mode g = GameModePlaying" "length (points g) \<le> 1" "Update inp g = Inr g'"
  shows "points g' = []"
proof -
  from assms(1,3) obtain g1 where
    sp: "spawnCoin inp (growZoomScale (countAllPointsOut (startTick g))) = Inr g1"
    and g': "g' = afterSpawn inp g1"
    by (rule Update_PlayingE)
  have "points (subdivide (accelerate g1)) = []"
    using points_before_hits(1) [OF sp] assms(2) by (simp add: expandPoints_short)
  then have "points (beforeHits inp g1) = []"
    using points_before_hits(2) [OF sp] by simp
  then show ?thesis
    using g' by (simp add: afterSpawn_fields trimmed_def)
qed

lemma expandPoints_nonempty: "2 \<le> length ps \<Longrightarrow> expandPoints ps \<noteq> []"
proof
  assume a: "2 \<le> length ps" and e: "expandPoints ps = []"
  have "length (expandPoints ps) = 4 * (length ps - 1) + 1"
    using a by (simp add: expandPoints_length)
  with e show False by simp
qed

lemma long_boundary_stays:
  assumes "mode g = GameModePlaying" "2 \<le> length (points g)" "Update inp g = Inr g'"
  shows "points g' \<noteq> []"
proof -
  from assms(1,3) obtain g1 where
    sp: "spawnCoin inp (growZoomScale (countAllPointsOut (startTick g))) = Inr g1"
    and g': "g' = afterSpawn inp g1"
    by (rule Update_PlayingE)
  have "points g \<noteq> []" using assms(2) by auto
  moreover have "points g1 = points g" using spawnCoin_frame [OF sp] by simp
  ultimately have "points (subdivide (accelerate g1)) \<noteq> []"
    using assms(2) by (simp add: expandPoints_nonempty)
  then have "points (beforeHits inp g1) \<noteq> []"
    using points_before_hits(2) [OF sp] by simp
  then show ?thesis
    using g' by (simp add: afterSpawn_fields trimmed_nonempty)
qed

subsection \<open>The example boundaries\<close>

lemma expandPoints_pair: "expandPoints [a, b] = expandLine a b"
  by (simp add: expandPoints_def expandLoop_concat)

lemma quiet_position:
  "pos (player g) = \<lparr>X = 320, Y = 250\<rparr> \<Longrightarrow> v (player g) = \<lparr>X = 0, Y = 2\<rparr> \<Longrightarrow>
   pos (player (beforeHits quietInput g)) = \<lparr>X = 320, Y = 252\<rparr>"
  by (simp add: beforeHits_pos beforeHits_v quietInput_def cruise_def Norm_def Add_def
      keepOnScreen_def screenWidth_def screenHeight_def)

lemma flying_fields:
  "pos (player flyingGame) = \<lparr>X = 320, Y = 250\<rparr>"
  "v (player flyingGame) = \<lparr>X = 0, Y = 2\<rparr>"
  "mode flyingGame = GameModePlaying"
  "zoomScale flyingGame = 1.002"
  "ticksFromModeStart flyingGame = 100"
  "ticksFromAllPointsOut flyingGame = 0"
  "life (player flyingGame) = 50"
  "coins flyingGame = []"
  by (simp_all add: flyingGame_def)

lemma departed_off_screen:
  "filter onScreen (expandLine \<lparr>X = - 1000, Y = 300\<rparr> \<lparr>X = - 700, Y = 300\<rparr>) = []"
  by (simp add: expandLine_def Let_def Add_def Sub_def Mul_def Div_def Rotate_def onScreen_def
      cos_60 sin_60)

lemma departed_zoomed_off_screen:
  "filter onScreen (map (\<lambda>p. zoom p \<lparr>X = 320, Y = 252\<rparr> 1.00202004)
     (expandLine \<lparr>X = - 1000, Y = 300\<rparr> \<lparr>X = - 700, Y = 300\<rparr>)) = []"
  by (simp add: expandLine_def Let_def zoom_def Add_def Sub_def Mul_def Div_def Rotate_def
      onScreen_def cos_60 sin_60)


lemma departed_fields:
  "points departedGame = [\<lparr>X = - 1000, Y = 300\<rparr>, \<lparr>X = - 700, Y = 300\<rparr>]"
  "pos (player departedGame) = \<lparr>X = 320, Y = 250\<rparr>"
  "v (player departedGame) = \<lparr>X = 0, Y = 2\<rparr>"
  "mode departedGame = GameModePlaying"
  "zoomScale departedGame = 1.002"
  "ticksFromModeStart departedGame = 100"
  "ticksFromAllPointsOut departedGame = 0"
  by (simp_all add: departedGame_def flying_fields)

lemma frozen_fields:
  "points frozenGame = [\<lparr>X = - 1000, Y = 300\<rparr>, \<lparr>X = - 700, Y = 300\<rparr>]"
  "pos (player frozenGame) = \<lparr>X = 320, Y = 250\<rparr>"
  "v (player frozenGame) = \<lparr>X = 0, Y = 2\<rparr>"
  "mode frozenGame = GameModePlaying"
  "zoomScale frozenGame = 1.002"
  "ticksFromModeStart frozenGame = 100"
  "ticksFromAllPointsOut frozenGame = 5"
  "coins frozenGame = [farCoin]"
  by (simp_all add: frozenGame_def departed_fields)

lemma edge_fields:
  "points edgeGame = [\<lparr>X = 680, Y = 240\<rparr>, \<lparr>X = 980, Y = 240\<rparr>]"
  "pos (player edgeGame) = \<lparr>X = 320, Y = 250\<rparr>"
  "v (player edgeGame) = \<lparr>X = 0, Y = 2\<rparr>"
  "mode edgeGame = GameModePlaying"
  "zoomScale edgeGame = 1.002"
  "ticksFromModeStart edgeGame = 100"
  "ticksFromAllPointsOut edgeGame = 0"
  "life (player edgeGame) = 50"
  "coins edgeGame = []"
  by (simp_all add: edgeGame_def flying_fields)

lemma edge_trimmed:
  "trimmed (map (\<lambda>p. zoom p \<lparr>X = 320, Y = 252\<rparr> 1.00202004)
     (expandLine \<lparr>X = 680, Y = 240\<rparr> \<lparr>X = 980, Y = 240\<rparr>)) =
   [\<lparr>X = 680.7272144, Y = 239.97575952\<rparr>]"
  by (simp add: trimmed_def expandLine_def Let_def zoom_def Add_def Sub_def Mul_def Div_def
      Rotate_def onScreen_def screenWidth_def screenHeight_def cos_60 sin_60)

lemma edge1_points: "points edgeGame1 = [\<lparr>X = 680.7272144, Y = 239.97575952\<rparr>]"
proof -
  let ?e1 = "growZoomScale (countAllPointsOut (startTick edgeGame))"
  have pe: "pos (player (beforeHits quietInput ?e1)) = \<lparr>X = 320, Y = 252\<rparr>"
    by (rule quiet_position) (simp_all add: edge_fields)
  have ze: "zoomScale ?e1 = 1.00202004"
    by (simp add: growZoomScale_zoomScale zoomCeiling_def edge_fields)
  have "points (beforeHits quietInput ?e1) =
      map (\<lambda>p. zoom p (pos (player (beforeHits quietInput ?e1))) (zoomScale ?e1))
        (expandLine \<lparr>X = 680, Y = 240\<rparr> \<lparr>X = 980, Y = 240\<rparr>)"
    by (simp add: beforeHits_points edge_fields expandPoints_pair)
  then have "points (beforeHits quietInput ?e1) =
      map (\<lambda>p. zoom p \<lparr>X = 320, Y = 252\<rparr> 1.00202004)
        (expandLine \<lparr>X = 680, Y = 240\<rparr> \<lparr>X = 980, Y = 240\<rparr>)"
    by (simp only: pe ze)
  then show ?thesis
    by (simp only: edgeGame1_def afterSpawn_fields beforeTrim_frame edge_trimmed)
qed

lemma edge1_mode: "mode edgeGame1 = GameModePlaying"
proof -
  let ?e1 = "growZoomScale (countAllPointsOut (startTick edgeGame))"
  have "life (player (afterSpawn quietInput ?e1)) = 49.8"
    by (simp add: life_after_spawn beforeHits_coins edge_fields)
  moreover have "\<not> ticksFromAllPointsOut (afterSpawn quietInput ?e1) > 160"
    by (simp add: counter_after_spawn edge_fields)
  ultimately show ?thesis
    using afterSpawn_mode [of quietInput ?e1] by (simp add: edgeGame1_def edge_fields)
qed

lemma edge1_life: "life (player edgeGame1) = 49.8"
  by (simp add: edgeGame1_def life_after_spawn beforeHits_coins edge_fields)

lemma edge1_counter: "ticksFromAllPointsOut edgeGame1 = 0"
proof -
  let ?e1 = "growZoomScale (countAllPointsOut (startTick edgeGame))"
  have "trimmed (points (beforeTrim quietInput ?e1)) = [\<lparr>X = 680.7272144, Y = 239.97575952\<rparr>]"
    using edge1_points by (simp add: edgeGame1_def afterSpawn_fields)
  then have "\<exists>p \<in> set (points (beforeTrim quietInput ?e1)). onScreen p"
    by (auto simp: trimmed_def onScreen_def screenWidth_def screenHeight_def split: if_splits)
  then show ?thesis
    by (auto simp: edgeGame1_def counter_after_spawn edge_fields)
qed


lemma edge2_mode: "mode edgeGame2 = GameModePlaying"
proof -
  let ?e2 = "growZoomScale (countAllPointsOut (startTick edgeGame1))"
  have "coins edgeGame1 = []"
    by (simp add: edgeGame1_def afterSpawn_def beforeTrim_def hitCoins_coins beforeHits_coins
        dropCoins_def checkGameOver_def setNextMode_def edge_fields)
  then have "life (player (afterSpawn quietInput ?e2)) = 49.6"
    by (simp add: life_after_spawn beforeHits_coins edge1_life)
  moreover have "\<not> ticksFromAllPointsOut (afterSpawn quietInput ?e2) > 160"
    by (simp add: counter_after_spawn edge1_counter)
  ultimately show ?thesis
    using afterSpawn_mode [of quietInput ?e2] by (simp add: edgeGame2_def edge1_mode)
qed

subsection \<open>When Update returns\<close>

text \<open>
  The sampling loop always ends with a point, so \<open>Update\<close> returns a state in every mode
  and from every state but one: a Playing tick that spawns a coin on an empty boundary.
\<close>

lemma sampleLoop_Some: "sampleLoop i smp ps c (Some p) \<noteq> None"
proof (induction i smp ps c "Some p" arbitrary: p rule: sampleLoop.induct)
  case (1 i smp ps c)
  show ?case
    using "1.hyps" by (subst sampleLoop.simps) (auto simp: Let_def)
qed

lemma sampleLoop_start: "sampleLoop 0 smp ps c None \<noteq> None"
  using sampleLoop_Some [of "Suc 0" smp ps c "ps ! (smp 0 mod length ps)"]
  by (subst sampleLoop.simps) (simp add: Let_def)

lemma spawnCoin_returns: "points g \<noteq> [] \<Longrightarrow> \<exists>g1. spawnCoin inp g = Inr g1"
  using sampleLoop_start [of "sampleIndex inp" "points g" "pos (player g)"]
  by (auto simp: spawnCoin_def split: option.splits)

lemma Update_returns:
  "mode g \<noteq> GameModePlaying \<or> points g \<noteq> [] \<Longrightarrow> \<exists>g'. Update inp g = Inr g'"
proof (cases "mode g")
  case GameModeTitle
  then show ?thesis by (simp add: Update_Title)
next
  case GameModeGameOver
  then show ?thesis by (simp add: Update_GameOver)
next
  case GameModePlaying
  assume "mode g \<noteq> GameModePlaying \<or> points g \<noteq> []"
  with GameModePlaying have "points (growZoomScale (countAllPointsOut (startTick g))) \<noteq> []"
    by simp
  then obtain g1 where "spawnCoin inp (growZoomScale (countAllPointsOut (startTick g))) = Inr g1"
    using spawnCoin_returns by blast
  with GameModePlaying show ?thesis by (simp add: Update_Playing)
qed

lemma Update_panics:
  "Update inp g = Inl e \<longleftrightarrow>
     e = NilPointerDereference \<and> mode g = GameModePlaying \<and> points g = [] \<and>
     randomInt inp mod spawnRate (growZoomScale (countAllPointsOut (startTick g))) = 0"
proof (cases "mode g = GameModePlaying \<and> points g = []")
  case True
  then show ?thesis
    by (auto simp: Update_Playing spawnCoin_def split: sum.splits)
next
  case False
  then obtain g' where "Update inp g = Inr g'"
    using Update_returns [of g inp] by blast
  with False show ?thesis by auto
qed

section \<open>The claims\<close>

subsection \<open>C1: one subdivision pass\<close>

text \<open>
  Claim C1. For all points \<open>s\<close> and \<open>t\<close>, \<open>expandLine s t\<close> has exactly five points; the
  first is \<open>s\<close> and the last is \<open>t\<close>; the second and the fourth lie one third and two
  thirds of the way from \<open>s\<close> to \<open>t\<close>; the middle point is the fourth point turned about
  the second by \<open>Rotate\<close> with the angle \<open>- pi / 3\<close>, that is by 60 degrees: with the
  second and the fourth point it forms a triangle of three equal sides. One chained pass
  over a polyline of \<open>N\<close> segments (\<open>N + 1\<close> points, \<open>N\<close> at least 1) is the detour of the
  first segment followed by the detours of the others without their first points, and it
  has exactly \<open>4 * N + 1\<close> points. (A single point is no polyline: it has no segment, and
  the pass returns the empty sequence for it, see C9.)
\<close>

theorem expandLine_five_points:
  "length (expandLine s t) = 5 \<and>
   hd (expandLine s t) = s \<and> last (expandLine s t) = t \<and>
   expandLine s t ! 1 = \<lparr>X = X s + (X t - X s) / 3, Y = Y s + (Y t - Y s) / 3\<rparr> \<and>
   expandLine s t ! 3 = \<lparr>X = X s + 2 * (X t - X s) / 3, Y = Y s + 2 * (Y t - Y s) / 3\<rparr> \<and>
   expandLine s t ! 2 =
     Add (Rotate (Sub (expandLine s t ! 3) (expandLine s t ! 1)) (- pi / 3)) (expandLine s t ! 1) \<and>
   Norm (Sub (expandLine s t ! 2) (expandLine s t ! 1)) =
     Norm (Sub (expandLine s t ! 3) (expandLine s t ! 1)) \<and>
   Norm (Sub (expandLine s t ! 2) (expandLine s t ! 3)) =
     Norm (Sub (expandLine s t ! 3) (expandLine s t ! 1)) \<and>
   (length ps = N + 1 \<and> 1 \<le> N \<longrightarrow>
      length (expandPoints ps) = 4 * N + 1 \<and>
      expandPoints ps =
        expandLine (ps ! 0) (ps ! 1) @
        concat (map (\<lambda>j. tl (expandLine (ps ! j) (ps ! (j + 1)))) [1 ..< N]))"
proof -
  have shape: "expandLine s t ! 1 = \<lparr>X = X s + (X t - X s) / 3, Y = Y s + (Y t - Y s) / 3\<rparr>"
    "expandLine s t ! 3 = \<lparr>X = X s + 2 * (X t - X s) / 3, Y = Y s + 2 * (Y t - Y s) / 3\<rparr>"
    by (simp_all add: expandLine_def Let_def Add_def Sub_def Mul_def Div_def)
  have mid: "expandLine s t ! 2 =
     Add (Rotate (Sub (expandLine s t ! 3) (expandLine s t ! 1)) (- pi / 3)) (expandLine s t ! 1)"
    by (simp add: expandLine_def Let_def)
  have ends: "length (expandLine s t) = 5" "hd (expandLine s t) = s" "last (expandLine s t) = t"
    by (simp_all add: expandLine_def Let_def)
  have pass: "length (expandPoints ps) = 4 * N + 1 \<and>
      expandPoints ps =
        expandLine (ps ! 0) (ps ! 1) @
        concat (map (\<lambda>j. tl (expandLine (ps ! j) (ps ! (j + 1)))) [1 ..< N])"
    if "length ps = N + 1" "1 \<le> N"
  proof -
    have len: "length (expandPoints ps) = 4 * N + 1"
      using that by (simp add: expandPoints_length)
    have "[0 ..< length ps - 1] = 0 # [1 ..< N]"
      using that by (simp add: upt_conv_Cons)
    then have "expandPoints ps =
        expandLine (ps ! 0) (ps ! 1) @
        concat (map (\<lambda>j. tl (expandLine (ps ! j) (ps ! (j + 1)))) [1 ..< N])"
      by (simp add: expandPoints_def expandLoop_concat map_positive_indices)
    with len show ?thesis by simp
  qed
  show ?thesis using shape mid ends pass spike_sides [of s t] by blast
qed

text \<open>A polyline of two segments: nine points after the pass.\<close>

theorem expandLine_five_points_witness:
  "length [\<lparr>X = 0, Y = 0\<rparr>, \<lparr>X = 3, Y = 0\<rparr>, \<lparr>X = 3, Y = 3\<rparr>] = 2 + 1 \<and> (1::nat) \<le> 2 \<and>
   length (expandPoints [\<lparr>X = 0, Y = 0\<rparr>, \<lparr>X = 3, Y = 0\<rparr>, \<lparr>X = 3, Y = 3\<rparr>]) = 4 * 2 + 1 \<and>
   expandLine \<lparr>X = 0, Y = 0\<rparr> \<lparr>X = 3, Y = 0\<rparr> ! 1 = \<lparr>X = 1, Y = 0\<rparr>"
proof -
  let ?ps = "[\<lparr>X = 0, Y = 0\<rparr>, \<lparr>X = 3, Y = 0\<rparr>, \<lparr>X = 3, Y = 3\<rparr>]"
  note inst = expandLine_five_points [of "\<lparr>X = 0, Y = 0\<rparr>" "\<lparr>X = 3, Y = 0\<rparr>" ?ps 2]
  have hyp: "length ?ps = 2 + 1 \<and> (1::nat) \<le> 2" by simp
  have "length (expandPoints ?ps) = 4 * 2 + 1" using inst hyp by blast
  moreover have "expandLine \<lparr>X = 0, Y = 0\<rparr> \<lparr>X = 3, Y = 0\<rparr> ! 1 = \<lparr>X = 1, Y = 0\<rparr>"
    using inst by simp
  ultimately show ?thesis using hyp by blast
qed

subsection \<open>C2: the life\<close>

text \<open>
  Claim C2 says that after every \<open>Update\<close> the life lies in \<open>[0, 100]\<close>, and that in
  Playing mode a life that becomes at most 0 during a tick ends the game in that tick.
  The code caps the life at 100 and has no lower bound: line 321 subtracts 0.2 and
  nothing raises a negative life to 0. The loop over the coins runs between the
  subtraction and the test of line 400, so a coin hit in the same tick rescues a life that
  the subtraction brought down to 0.

  Claim C2, counterexample. In \<open>lastLifeGame\<close> the life is in \<open>[0, 100]\<close>, and after one tick
  it is negative. In \<open>rescuedGame\<close> the subtraction brings the life to 0, the coin in
  front of the player is hit, the life is 50 at the end of the tick and the mode is
  still Playing.
\<close>

theorem life_below_zero:
  "mode lastLifeGame = GameModePlaying \<and>
   0 \<le> life (player lastLifeGame) \<and> life (player lastLifeGame) \<le> 100 \<and>
   lifeInv lastLifeGame \<and> lifeInv rescuedGame \<and>
   Update quietInput lastLifeGame =
     Inr (afterSpawn quietInput (growZoomScale (countAllPointsOut (startTick lastLifeGame)))) \<and>
   life (player (afterSpawn quietInput (growZoomScale (countAllPointsOut (startTick lastLifeGame))))) < 0 \<and>
   mode rescuedGame = GameModePlaying \<and>
   Update quietInput rescuedGame =
     Inr (afterSpawn quietInput (growZoomScale (countAllPointsOut (startTick rescuedGame)))) \<and>
   life (player (beforeHits quietInput (growZoomScale (countAllPointsOut (startTick rescuedGame))))) \<le> 0 \<and>
   life (player (afterSpawn quietInput (growZoomScale (countAllPointsOut (startTick rescuedGame))))) = 50 \<and>
   mode (afterSpawn quietInput (growZoomScale (countAllPointsOut (startTick rescuedGame)))) = GameModePlaying"
proof -
  let ?a = "afterSpawn quietInput (growZoomScale (countAllPointsOut (startTick lastLifeGame)))"
  let ?r1 = "growZoomScale (countAllPointsOut (startTick rescuedGame))"
  let ?b = "afterSpawn quietInput ?r1"
  have ma: "mode lastLifeGame = GameModePlaying"
    by (simp add: lastLifeGame_def flyingGame_def)
  have la: "0 \<le> life (player lastLifeGame) \<and> life (player lastLifeGame) \<le> 100"
    by (simp add: lastLifeGame_def)
  have li: "lifeInv lastLifeGame \<and> lifeInv rescuedGame"
    by (simp add: lifeInv_def lastLifeGame_def rescuedGame_def flyingGame_def)
  have ua: "Update quietInput lastLifeGame = Inr ?a"
    using ma by (rule quiet_tick) (simp add: quietInput_def)
  have na: "life (player ?a) < 0"
    by (simp add: life_after_spawn beforeHits_coins lastLifeGame_def flyingGame_def)
  have mb: "mode rescuedGame = GameModePlaying"
    by (simp add: rescuedGame_def flyingGame_def)
  have ub: "Update quietInput rescuedGame = Inr ?b"
    using mb by (rule quiet_tick) (simp add: quietInput_def)
  have lb: "life (player (beforeHits quietInput ?r1)) \<le> 0"
    by (simp add: rescuedGame_def)
  have posb: "pos (player (beforeHits quietInput ?r1)) = \<lparr>X = 320, Y = 252\<rparr>"
    by (simp add: beforeHits_pos beforeHits_v rescuedGame_def flyingGame_def quietInput_def
        cruise_def Norm_def Add_def keepOnScreen_def screenWidth_def screenHeight_def)
  have r1: "coins rescuedGame = [nearCoin]" "zoomScale ?r1 = 1.00202004"
    "r (player rescuedGame) = 5" "life (player rescuedGame) = 0.2"
    by (simp_all add: rescuedGame_def flyingGame_def growZoomScale_zoomScale zoomCeiling_def
        playerHitR_def)
  have hitb: "filter (isHit (beforeHits quietInput ?r1)) (coins (beforeHits quietInput ?r1)) =
      coins (beforeHits quietInput ?r1)"
    by (simp add: beforeHits_coins isHit_def posb r1 zoomCoin_def zoom_def Add_def Sub_def Mul_def
        nearCoin_def coinHitZ_def)
  have hb: "life (player ?b) = 50"
    by (simp add: life_after_spawn hitb) (simp add: beforeHits_coins r1 heal_def)
  have cb: "\<not> ticksFromAllPointsOut ?b > 160"
    by (simp add: counter_after_spawn rescuedGame_def flyingGame_def)
  have "mode ?b = GameModePlaying"
    using afterSpawn_mode [of quietInput ?r1] hb cb mb by simp
  with ma la li ua na mb ub lb hb show ?thesis by blast
qed

text \<open>
  Claim C2, as amended. After \<open>initialize\<close> and after every \<open>Update\<close> the life is above
  \<open>- 0.2\<close> and at most 100, and it is above 0 in Title and in Playing mode (\<open>lifeInv\<close>
  holds after \<open>initialize\<close>, where the life is 100, and every \<open>Update\<close> that returns keeps
  it). A Playing tick lowers the life by 0.2 and then heals it by 50 for every coin hit,
  up to 100, so the life after the tick is at least the life before minus 0.2. If the
  life at the end of a Playing tick is at most 0, the mode is GameOver at the end of that
  same tick. Outside Playing mode the life does not change, except that \<open>initialize\<close>
  sets it to 100.
\<close>

theorem life_after_update:
  "lifeInv initialize \<and> life (player initialize) = 100 \<and>
   (lifeInv g \<and> Update inp g = Inr g' \<longrightarrow>
      lifeInv g' \<and> - 0.2 < life (player g') \<and> life (player g') \<le> 100 \<and>
      (mode g = GameModePlaying \<longrightarrow>
         life (player g) - 0.2 \<le> life (player g') \<and>
         (life (player g') \<le> 0 \<longrightarrow> mode g' = GameModeGameOver)) \<and>
      (mode g \<noteq> GameModePlaying \<longrightarrow> life (player g') = life (player g) \<or> g' = initialize))"
proof -
  have init: "lifeInv initialize" "life (player initialize) = 100"
    by (simp_all add: lifeInv_def)
  have step: "lifeInv g' \<and> - 0.2 < life (player g') \<and> life (player g') \<le> 100 \<and>
      (mode g = GameModePlaying \<longrightarrow>
         life (player g) - 0.2 \<le> life (player g') \<and>
         (life (player g') \<le> 0 \<longrightarrow> mode g' = GameModeGameOver)) \<and>
      (mode g \<noteq> GameModePlaying \<longrightarrow> life (player g') = life (player g) \<or> g' = initialize)"
    if inv: "lifeInv g" and upd: "Update inp g = Inr g'"
  proof (cases "mode g")
    case GameModeTitle
    with upd inv init show ?thesis
      by (auto simp: Update_Title setNextMode_def lifeInv_def split: if_splits)
  next
    case GameModeGameOver
    with upd inv init show ?thesis
      by (auto simp: Update_GameOver lifeInv_def split: if_splits)
  next
    case GameModePlaying
    from GameModePlaying upd obtain g1 where
      sp: "spawnCoin inp (growZoomScale (countAllPointsOut (startTick g))) = Inr g1"
      and g': "g' = afterSpawn inp g1"
      by (rule Update_PlayingE)
    have p1: "player g1 = player g" and m1: "mode g1 = GameModePlaying"
      using spawnCoin_frame [OF sp] GameModePlaying by simp_all
    define n where "n = length (filter (isHit (beforeHits inp g1)) (coins (beforeHits inp g1)))"
    have l': "life (player g') = (heal ^^ n) (life (player g) - 0.2)"
      using g' p1 by (simp add: life_after_spawn n_def)
    have pos: "0 < life (player g)" and le: "life (player g) \<le> 100"
      using inv GameModePlaying by (simp_all add: lifeInv_def)
    have "life (player g) - 0.2 \<le> 100" using le by simp
    then have b: "life (player g) - 0.2 \<le> life (player g')" "life (player g') \<le> 100"
      using heal_funpow_bounds [of "life (player g) - 0.2" n] l' by simp_all
    have lo: "- 0.2 < life (player g')" using b pos by simp
    have over: "mode g' = GameModeGameOver" if "life (player g') \<le> 0"
      using that g' afterSpawn_mode [of inp g1] by simp
    have "0 < life (player g')" if "mode g' \<noteq> GameModeGameOver"
      using that over by (cases "life (player g') \<le> 0") auto
    then have "lifeInv g'"
      using b lo by (simp add: lifeInv_def)
    with b lo over GameModePlaying show ?thesis by simp
  qed
  from init step show ?thesis by blast
qed

text \<open>A quiet tick of \<open>flyingGame\<close>, whose life is 50.\<close>

theorem life_after_update_witness:
  "lifeInv flyingGame \<and>
   Update quietInput flyingGame =
     Inr (afterSpawn quietInput (growZoomScale (countAllPointsOut (startTick flyingGame)))) \<and>
   mode flyingGame = GameModePlaying \<and>
   life (player flyingGame) = 50 \<and>
   lifeInv (afterSpawn quietInput (growZoomScale (countAllPointsOut (startTick flyingGame)))) \<and>
   life (player flyingGame) - 0.2 \<le>
     life (player (afterSpawn quietInput (growZoomScale (countAllPointsOut (startTick flyingGame)))))"
proof -
  let ?g' = "afterSpawn quietInput (growZoomScale (countAllPointsOut (startTick flyingGame)))"
  have h: "lifeInv flyingGame \<and> Update quietInput flyingGame = Inr ?g'"
    using quiet_flying by (simp add: lifeInv_def flying_fields)
  have m: "mode flyingGame = GameModePlaying" "life (player flyingGame) = 50"
    by (simp_all add: flying_fields)
  from life_after_update [of flyingGame quietInput ?g'] h m
  have "lifeInv ?g' \<and> life (player flyingGame) - 0.2 \<le> life (player ?g')"
    by blast
  with h m show ?thesis by blast
qed

subsection \<open>C3: the zoom\<close>

text \<open>
  Claim C3 says that \<open>zoom(p, c, s) = c + (p - c) * s\<close>, that \<open>zoom(c, c, s) = c\<close>, and that
  \<open>zoom(zoom(p, c, s1), c, s2) = zoom(p, c, s1 * s2)\<close> for all points and scales. The first
  two hold of the code, with \<open>-\<close>, \<open>*\<close> and \<open>+\<close> those of \<open>float64\<close>. The third is an equation
  of exact arithmetic: the left side rounds six times and the right side four times, and
  the roundings do not agree in general.

  Claim C3, counterexample. With \<open>p = (981, 327)\<close>, \<open>c = (46, 353)\<close> and the scales \<open>1.024\<close>
  and \<open>1.008\<close> (as \<open>float64\<close>: the fractions below), two zooms give
  \<open>X = 1011.0995200000001\<close> and one zoom by the product \<open>1.032192\<close> gives \<open>X = 1011.09952\<close>,
  which is the \<open>float64\<close> just below, \<open>2 ^ (- 43)\<close> away.
\<close>

theorem zoom_composition_rounds:
  "isFloat64 981 \<and> isFloat64 327 \<and> isFloat64 46 \<and> isFloat64 353 \<and>
   roundFloat64 1.024 = 1152921504606847 / 1125899906842624 \<and>
   roundFloat64 1.008 = 1134907106097365 / 1125899906842624 \<and>
   roundFloat64 ((1152921504606847 / 1125899906842624) * (1134907106097365 / 1125899906842624)) =
     4648579506574807 / 4503599627370496 \<and>
   zoomFloat64 (zoomFloat64 \<lparr>X = 981, Y = 327\<rparr> \<lparr>X = 46, Y = 353\<rparr>
                  (1152921504606847 / 1125899906842624))
     \<lparr>X = 46, Y = 353\<rparr> (1134907106097365 / 1125899906842624) =
     \<lparr>X = 8893725432629859 / 8796093022208, Y = 717240039692793 / 2199023255552\<rparr> \<and>
   zoomFloat64 \<lparr>X = 981, Y = 327\<rparr> \<lparr>X = 46, Y = 353\<rparr> (4648579506574807 / 4503599627370496) =
     \<lparr>X = 4446862716314929 / 4398046511104, Y = 717240039692793 / 2199023255552\<rparr> \<and>
   zoomFloat64 (zoomFloat64 \<lparr>X = 981, Y = 327\<rparr> \<lparr>X = 46, Y = 353\<rparr>
                  (1152921504606847 / 1125899906842624))
     \<lparr>X = 46, Y = 353\<rparr> (1134907106097365 / 1125899906842624) \<noteq>
   zoomFloat64 \<lparr>X = 981, Y = 327\<rparr> \<lparr>X = 46, Y = 353\<rparr>
     (roundFloat64 ((1152921504606847 / 1125899906842624) *
                    (1134907106097365 / 1125899906842624)))"
proof -
  have a: "isFloat64 981" "isFloat64 327" "isFloat64 46" "isFloat64 353"
    by code_simp+
  have b: "roundFloat64 1.024 = 1152921504606847 / 1125899906842624"
    "roundFloat64 1.008 = 1134907106097365 / 1125899906842624"
    by code_simp+
  have c: "roundFloat64 ((1152921504606847 / 1125899906842624) *
      (1134907106097365 / 1125899906842624)) = 4648579506574807 / 4503599627370496"
    by code_simp
  have d: "zoomFloat64 (zoomFloat64 \<lparr>X = 981, Y = 327\<rparr> \<lparr>X = 46, Y = 353\<rparr>
                  (1152921504606847 / 1125899906842624))
     \<lparr>X = 46, Y = 353\<rparr> (1134907106097365 / 1125899906842624) =
     \<lparr>X = 8893725432629859 / 8796093022208, Y = 717240039692793 / 2199023255552\<rparr>"
    by code_simp
  have e: "zoomFloat64 \<lparr>X = 981, Y = 327\<rparr> \<lparr>X = 46, Y = 353\<rparr>
      (4648579506574807 / 4503599627370496) =
     \<lparr>X = 4446862716314929 / 4398046511104, Y = 717240039692793 / 2199023255552\<rparr>"
    by code_simp
  have f: "zoomFloat64 (zoomFloat64 \<lparr>X = 981, Y = 327\<rparr> \<lparr>X = 46, Y = 353\<rparr>
                  (1152921504606847 / 1125899906842624))
     \<lparr>X = 46, Y = 353\<rparr> (1134907106097365 / 1125899906842624) \<noteq>
   zoomFloat64 \<lparr>X = 981, Y = 327\<rparr> \<lparr>X = 46, Y = 353\<rparr>
     (roundFloat64 ((1152921504606847 / 1125899906842624) *
                    (1134907106097365 / 1125899906842624)))"
    by (simp only: c d e) simp
  from a b c d e f show ?thesis by blast
qed

text \<open>
  Claim C3, as it holds. In \<open>float64\<close>, \<open>zoom p c s\<close> is \<open>(p - c) * s + c\<close> with each of the
  three operations rounded, and the centre is a fixed point, \<open>zoom c c s = c\<close>. In exact
  arithmetic \<open>zoom p c s\<close> is \<open>c + (p - c) * s\<close>, the centre is a fixed point, and two zooms
  about the same centre are one zoom by the product of the scales. The \<open>float64\<close> zoom is
  the exact one when none of its operations rounds; so two \<open>float64\<close> zooms about the same
  centre are one \<open>float64\<close> zoom by the product of the scales when no operation of the three
  zooms rounds and the product of the scales is a \<open>float64\<close>. When an operation rounds, the
  two sides can differ in the last places, by less than a millionth in each coordinate
  when the coordinates of \<open>p\<close> and \<open>c\<close> are at most \<open>2 ^ 20\<close> in absolute value and the scales
  at most 2.
\<close>

theorem zoom_about_center:
  "zoom p c s = \<lparr>X = X c + (X p - X c) * s, Y = Y c + (Y p - Y c) * s\<rparr> \<and>
   zoom p c s = Add c (Mul (Sub p c) s) \<and>
   zoom c c s = c \<and>
   zoom (zoom p c s1) c s2 = zoom p c (s1 * s2) \<and>
   zoomFloat64 p c s =
     \<lparr>X = roundFloat64 (roundFloat64 (roundFloat64 (X p - X c) * s) + X c),
      Y = roundFloat64 (roundFloat64 (roundFloat64 (Y p - Y c) * s) + Y c)\<rparr> \<and>
   (isFloat64 (X c) \<and> isFloat64 (Y c) \<longrightarrow> zoomFloat64 c c s = c) \<and>
   (exactZoom p c s \<longrightarrow> zoomFloat64 p c s = zoom p c s) \<and>
   (exactZoom p c s1 \<and> exactZoom (zoom p c s1) c s2 \<and> exactZoom p c (s1 * s2) \<and>
    isFloat64 (s1 * s2) \<longrightarrow>
      zoomFloat64 (zoomFloat64 p c s1) c s2 = zoomFloat64 p c (roundFloat64 (s1 * s2))) \<and>
   (\<bar>X p\<bar> \<le> 2 ^ 20 \<and> \<bar>Y p\<bar> \<le> 2 ^ 20 \<and> \<bar>X c\<bar> \<le> 2 ^ 20 \<and> \<bar>Y c\<bar> \<le> 2 ^ 20 \<and>
    \<bar>s1\<bar> \<le> 2 \<and> \<bar>s2\<bar> \<le> 2 \<longrightarrow>
      \<bar>X (zoomFloat64 (zoomFloat64 p c s1) c s2) -
       X (zoomFloat64 p c (roundFloat64 (s1 * s2)))\<bar> \<le> 1 / 10 ^ 6 \<and>
      \<bar>Y (zoomFloat64 (zoomFloat64 p c s1) c s2) -
       Y (zoomFloat64 p c (roundFloat64 (s1 * s2)))\<bar> \<le> 1 / 10 ^ 6)"
proof -
  have exact: "zoom p c s = \<lparr>X = X c + (X p - X c) * s, Y = Y c + (Y p - Y c) * s\<rparr> \<and>
      zoom p c s = Add c (Mul (Sub p c) s) \<and> zoom c c s = c \<and>
      zoom (zoom p c s1) c s2 = zoom p c (s1 * s2)"
    by (simp add: zoom_def Add_def Sub_def Mul_def algebra_simps)
  have rounded: "zoomFloat64 p c s =
     \<lparr>X = roundFloat64 (roundFloat64 (roundFloat64 (X p - X c) * s) + X c),
      Y = roundFloat64 (roundFloat64 (roundFloat64 (Y p - Y c) * s) + Y c)\<rparr>"
    by (simp add: zoomFloat64_def AddFloat64_def MulFloat64_def SubFloat64_def)
  have fixed: "zoomFloat64 c c s = c" if "isFloat64 (X c) \<and> isFloat64 (Y c)"
    using that
    by (simp add: zoomFloat64_def AddFloat64_def MulFloat64_def SubFloat64_def isFloat64_def)
  have same: "zoomFloat64 p c s = zoom p c s" if "exactZoom p c s"
    using that by (rule zoomFloat64_exact)
  have twice: "zoomFloat64 (zoomFloat64 p c s1) c s2 = zoomFloat64 p c (roundFloat64 (s1 * s2))"
    if h: "exactZoom p c s1 \<and> exactZoom (zoom p c s1) c s2 \<and> exactZoom p c (s1 * s2) \<and>
      isFloat64 (s1 * s2)"
  proof -
    have "zoomFloat64 (zoomFloat64 p c s1) c s2 = zoomFloat64 (zoom p c s1) c s2"
      using h by (simp add: zoomFloat64_exact)
    also have "\<dots> = zoom (zoom p c s1) c s2"
      using h by (simp add: zoomFloat64_exact)
    also have "\<dots> = zoom p c (s1 * s2)"
      using exact by simp
    also have "\<dots> = zoomFloat64 p c (s1 * s2)"
      using h by (simp add: zoomFloat64_exact)
    also have "\<dots> = zoomFloat64 p c (roundFloat64 (s1 * s2))"
      using h by (simp add: isFloat64_def)
    finally show ?thesis .
  qed
  have near: "\<bar>X (zoomFloat64 (zoomFloat64 p c s1) c s2) -
       X (zoomFloat64 p c (roundFloat64 (s1 * s2)))\<bar> \<le> 1 / 10 ^ 6 \<and>
      \<bar>Y (zoomFloat64 (zoomFloat64 p c s1) c s2) -
       Y (zoomFloat64 p c (roundFloat64 (s1 * s2)))\<bar> \<le> 1 / 10 ^ 6"
    if h: "\<bar>X p\<bar> \<le> 2 ^ 20 \<and> \<bar>Y p\<bar> \<le> 2 ^ 20 \<and> \<bar>X c\<bar> \<le> 2 ^ 20 \<and> \<bar>Y c\<bar> \<le> 2 ^ 20 \<and>
      \<bar>s1\<bar> \<le> 2 \<and> \<bar>s2\<bar> \<le> 2"
  proof -
    from h have x: "\<bar>zoomCoordinate (zoomCoordinate (X p) (X c) s1) (X c) s2 -
        zoomCoordinate (X p) (X c) (roundFloat64 (s1 * s2))\<bar> \<le> 1 / 10 ^ 6"
      by (intro zoomCoordinate_twice) simp_all
    from h have y: "\<bar>zoomCoordinate (zoomCoordinate (Y p) (Y c) s1) (Y c) s2 -
        zoomCoordinate (Y p) (Y c) (roundFloat64 (s1 * s2))\<bar> \<le> 1 / 10 ^ 6"
      by (intro zoomCoordinate_twice) simp_all
    from x y show ?thesis by (simp only: zoomFloat64_coordinates)
  qed
  from exact rounded fixed same twice near show ?thesis by blast
qed

text \<open>
  The point \<open>(3, 5)\<close> zoomed about \<open>(1, 1)\<close> by 2 and then by 1.5, and by 3: small numbers,
  which no operation rounds, so that both ways give \<open>(7, 13)\<close>.
\<close>

theorem zoom_about_center_witness:
  "isFloat64 (X \<lparr>X = 1, Y = 1\<rparr>) \<and> isFloat64 (Y \<lparr>X = 1, Y = 1\<rparr>) \<and>
   exactZoom \<lparr>X = 3, Y = 5\<rparr> \<lparr>X = 1, Y = 1\<rparr> 2 \<and>
   exactZoom (zoom \<lparr>X = 3, Y = 5\<rparr> \<lparr>X = 1, Y = 1\<rparr> 2) \<lparr>X = 1, Y = 1\<rparr> 1.5 \<and>
   exactZoom \<lparr>X = 3, Y = 5\<rparr> \<lparr>X = 1, Y = 1\<rparr> (2 * 1.5) \<and> isFloat64 (2 * 1.5) \<and>
   \<bar>X \<lparr>X = 3, Y = 5 :: real\<rparr>\<bar> \<le> 2 ^ 20 \<and> \<bar>Y \<lparr>X = 3 :: real, Y = 5\<rparr>\<bar> \<le> 2 ^ 20 \<and>
   \<bar>X \<lparr>X = 1, Y = 1 :: real\<rparr>\<bar> \<le> 2 ^ 20 \<and> \<bar>Y \<lparr>X = 1 :: real, Y = 1\<rparr>\<bar> \<le> 2 ^ 20 \<and>
   \<bar>2 :: real\<bar> \<le> 2 \<and> \<bar>1.5 :: real\<bar> \<le> 2 \<and>
   zoomFloat64 \<lparr>X = 1, Y = 1\<rparr> \<lparr>X = 1, Y = 1\<rparr> 2 = \<lparr>X = 1, Y = 1\<rparr> \<and>
   zoomFloat64 \<lparr>X = 3, Y = 5\<rparr> \<lparr>X = 1, Y = 1\<rparr> 2 = \<lparr>X = 5, Y = 9\<rparr> \<and>
   zoomFloat64 (zoomFloat64 \<lparr>X = 3, Y = 5\<rparr> \<lparr>X = 1, Y = 1\<rparr> 2) \<lparr>X = 1, Y = 1\<rparr> 1.5 =
     zoomFloat64 \<lparr>X = 3, Y = 5\<rparr> \<lparr>X = 1, Y = 1\<rparr> (roundFloat64 (2 * 1.5)) \<and>
   \<bar>X (zoomFloat64 (zoomFloat64 \<lparr>X = 3, Y = 5\<rparr> \<lparr>X = 1, Y = 1\<rparr> 2) \<lparr>X = 1, Y = 1\<rparr> 1.5) -
    X (zoomFloat64 \<lparr>X = 3, Y = 5\<rparr> \<lparr>X = 1, Y = 1\<rparr> (roundFloat64 (2 * 1.5)))\<bar> \<le> 1 / 10 ^ 6"
proof -
  have f: "isFloat64 (X \<lparr>X = 1, Y = 1\<rparr>)" "isFloat64 (Y \<lparr>X = 1, Y = 1\<rparr>)"
    "exactZoom \<lparr>X = 3, Y = 5\<rparr> \<lparr>X = 1, Y = 1\<rparr> 2"
    "exactZoom (zoom \<lparr>X = 3, Y = 5\<rparr> \<lparr>X = 1, Y = 1\<rparr> 2) \<lparr>X = 1, Y = 1\<rparr> 1.5"
    "exactZoom \<lparr>X = 3, Y = 5\<rparr> \<lparr>X = 1, Y = 1\<rparr> (2 * 1.5)" "isFloat64 (2 * 1.5)"
    by code_simp+
  have r: "\<bar>X \<lparr>X = 3, Y = 5 :: real\<rparr>\<bar> \<le> 2 ^ 20" "\<bar>Y \<lparr>X = 3 :: real, Y = 5\<rparr>\<bar> \<le> 2 ^ 20"
    "\<bar>X \<lparr>X = 1, Y = 1 :: real\<rparr>\<bar> \<le> 2 ^ 20" "\<bar>Y \<lparr>X = 1 :: real, Y = 1\<rparr>\<bar> \<le> 2 ^ 20"
    "\<bar>2 :: real\<bar> \<le> 2" "\<bar>1.5 :: real\<bar> \<le> 2"
    by simp_all
  note inst = zoom_about_center [of "\<lparr>X = 3, Y = 5\<rparr>" "\<lparr>X = 1, Y = 1\<rparr>" 2 2 "1.5"]
  from inst have z: "zoom \<lparr>X = 3, Y = 5\<rparr> \<lparr>X = 1, Y = 1\<rparr> 2 = \<lparr>X = 5, Y = 9\<rparr>"
    by simp
  from inst f(3)
  have "zoomFloat64 \<lparr>X = 3, Y = 5\<rparr> \<lparr>X = 1, Y = 1\<rparr> 2 = zoom \<lparr>X = 3, Y = 5\<rparr> \<lparr>X = 1, Y = 1\<rparr> 2"
    by blast
  then have z': "zoomFloat64 \<lparr>X = 3, Y = 5\<rparr> \<lparr>X = 1, Y = 1\<rparr> 2 = \<lparr>X = 5, Y = 9\<rparr>"
    by (simp only: z)
  from inst f r z' show ?thesis by blast
qed

subsection \<open>C4: the score\<close>

text \<open>
  Claim C4. In a Playing tick the score changes only in the loop over the coins: the
  score after the tick is the score before plus the gains of the coins that are hit, and
  a coin that is hit adds exactly 1000 when its depth \<open>Z\<close> at that moment is below 180 and
  exactly 200 when it is 180 or more. So the score never decreases from one tick to the
  next; for the signed 64-bit score this needs room for the gains of the tick below
  \<open>2 ^ 63\<close>, which 1000 for every coin of the tick (the coins before the tick and the one
  it may spawn) leaves.
\<close>

theorem score_after_update:
  "mode g = GameModePlaying \<and>
   spawnCoin inp (growZoomScale (countAllPointsOut (startTick g))) = Inr g1 \<longrightarrow>
     Update inp g = Inr (afterSpawn inp g1) \<and>
     score (afterSpawn inp g1) =
       score g + sum_list (map hitGain
         (filter (isHit (beforeHits inp g1)) (coins (beforeHits inp g1)))) \<and>
     hitGain c = (if cZ c < 180 then 1000 else 200) \<and>
     score (snd (hitCoin c h)) =
       (if isHit h c then score h + (if cZ c < 180 then 1000 else 200) else score h) \<and>
     (sint (score g) + 1000 * (int (length (coins g)) + 1) < 2 ^ 63 \<longrightarrow>
        sint (score g) \<le> sint (score (afterSpawn inp g1)))"
proof
  assume a: "mode g = GameModePlaying \<and>
    spawnCoin inp (growZoomScale (countAllPointsOut (startTick g))) = Inr g1"
  then have m: "mode g = GameModePlaying"
    and sp: "spawnCoin inp (growZoomScale (countAllPointsOut (startTick g))) = Inr g1"
    by simp_all
  let ?hits = "filter (isHit (beforeHits inp g1)) (coins (beforeHits inp g1))"
  have upd: "Update inp g = Inr (afterSpawn inp g1)"
    using m sp by (simp add: Update_Playing)
  have sc1: "score g1 = score g" and len1: "length (coins g1) \<le> length (coins g) + 1"
    using spawnCoin_frame [OF sp] by simp_all
  have sc: "score (afterSpawn inp g1) = score g + sum_list (map hitGain ?hits)"
    using sc1 by (simp add: score_after_spawn)
  have gain: "hitGain c = (if cZ c < 180 then 1000 else 200)"
    by (simp add: hitGain_def coinHitZ_def)
  have one: "score (snd (hitCoin c h)) =
       (if isHit h c then score h + (if cZ c < 180 then 1000 else 200) else score h)"
    by (simp add: hitCoin_def hitGain_def coinHitZ_def)
  have mono: "sint (score g) \<le> sint (score (afterSpawn inp g1))"
    if b: "sint (score g) + 1000 * (int (length (coins g)) + 1) < 2 ^ 63"
  proof -
    have "length ?hits \<le> length (coins g1)"
      using length_filter_le [of "isHit (beforeHits inp g1)" "coins (beforeHits inp g1)"]
      by (simp add: beforeHits_coins)
    with len1 have "int (length ?hits) \<le> int (length (coins g)) + 1" by simp
    with b have "sint (score g) + 1000 * int (length ?hits) < 2 ^ 63" by simp
    from score_sum_bounds [OF this] sc show ?thesis by simp
  qed
  show "Update inp g = Inr (afterSpawn inp g1) \<and>
     score (afterSpawn inp g1) = score g + sum_list (map hitGain ?hits) \<and>
     hitGain c = (if cZ c < 180 then 1000 else 200) \<and>
     score (snd (hitCoin c h)) =
       (if isHit h c then score h + (if cZ c < 180 then 1000 else 200) else score h) \<and>
     (sint (score g) + 1000 * (int (length (coins g)) + 1) < 2 ^ 63 \<longrightarrow>
        sint (score g) \<le> sint (score (afterSpawn inp g1)))"
    using upd sc gain one mono by blast
qed

text \<open>
  A quiet tick of \<open>rescuedGame\<close>: its coin is hit at depth 151.00202004, below 180, and
  the score goes from 0 to 1000.
\<close>

theorem score_after_update_witness:
  "mode rescuedGame = GameModePlaying \<and>
   spawnCoin quietInput (growZoomScale (countAllPointsOut (startTick rescuedGame))) =
     Inr (growZoomScale (countAllPointsOut (startTick rescuedGame))) \<and>
   sint (score rescuedGame) + 1000 * (int (length (coins rescuedGame)) + 1) < 2 ^ 63 \<and>
   cZ (zoomCoin (beforeHits quietInput (growZoomScale (countAllPointsOut (startTick rescuedGame))))
         nearCoin) = 151.00202004 \<and>
   score rescuedGame = 0 \<and>
   score (afterSpawn quietInput (growZoomScale (countAllPointsOut (startTick rescuedGame)))) = 1000 \<and>
   sint (score rescuedGame) \<le>
     sint (score (afterSpawn quietInput (growZoomScale (countAllPointsOut (startTick rescuedGame)))))"
proof -
  let ?r1 = "growZoomScale (countAllPointsOut (startTick rescuedGame))"
  let ?bh = "beforeHits quietInput ?r1"
  have m: "mode rescuedGame = GameModePlaying"
    by (simp add: rescuedGame_def flyingGame_def)
  have sp: "spawnCoin quietInput ?r1 = Inr ?r1"
    by (rule quiet_spawn) (simp add: quietInput_def)
  have r1: "coins rescuedGame = [nearCoin]" "zoomScale ?r1 = 1.00202004"
    "r (player rescuedGame) = 5" "score rescuedGame = 0"
    by (simp_all add: rescuedGame_def flyingGame_def growZoomScale_zoomScale zoomCeiling_def
        playerHitR_def)
  have b: "sint (score rescuedGame) + 1000 * (int (length (coins rescuedGame)) + 1) < 2 ^ 63"
    by (simp add: r1)
  have p: "pos (player ?bh) = \<lparr>X = 320, Y = 252\<rparr>"
    by (simp add: beforeHits_pos beforeHits_v rescuedGame_def flyingGame_def quietInput_def
        cruise_def Norm_def Add_def keepOnScreen_def screenWidth_def screenHeight_def)
  have z: "cZ (zoomCoin ?bh nearCoin) = 151.00202004"
    by (simp add: zoomCoin_def Let_def r1 nearCoin_def)
  have hits: "filter (isHit ?bh) (coins ?bh) = [zoomCoin ?bh nearCoin]"
    by (simp add: beforeHits_coins isHit_def p r1 zoomCoin_def zoom_def Add_def Sub_def Mul_def
        nearCoin_def coinHitZ_def)
  note inst = score_after_update [of rescuedGame quietInput ?r1 "zoomCoin ?bh nearCoin"]
  from inst m sp have "hitGain (zoomCoin ?bh nearCoin) = 1000"
    by (simp add: z)
  moreover from inst m sp
  have "score (afterSpawn quietInput ?r1) =
          score rescuedGame + sum_list (map hitGain (filter (isHit ?bh) (coins ?bh)))"
    by blast
  ultimately have s: "score (afterSpawn quietInput ?r1) = 1000"
    by (simp add: hits r1)
  from inst m sp b
  have "sint (score rescuedGame) \<le> sint (score (afterSpawn quietInput ?r1))"
    by blast
  with m sp b z r1 s show ?thesis by blast
qed

subsection \<open>C5: the speed\<close>

text \<open>
  Claim C5. After every tick in Playing mode the length of the player's velocity is at
  most 2.0. Once the length is 2.0 it stays 2.0 on every later Playing tick, and without a
  tap the velocity itself does not change. Lengths are real numbers here: \<open>Norm\<close> is the
  exact Euclidean length.
\<close>

theorem speed_limit:
  "mode g = GameModePlaying \<and> Update inp g = Inr g' \<longrightarrow>
     Norm (v (player g')) \<le> 2 \<and>
     (Norm (v (player g)) = 2 \<longrightarrow>
        Norm (v (player g')) = 2 \<and> (\<not> justTouched inp \<longrightarrow> v (player g') = v (player g)))"
proof
  assume a: "mode g = GameModePlaying \<and> Update inp g = Inr g'"
  then obtain g1 where
    sp: "spawnCoin inp (growZoomScale (countAllPointsOut (startTick g))) = Inr g1"
    and g': "g' = afterSpawn inp g1"
    using Update_PlayingE [of g inp g'] by blast
  have "player g1 = player g"
    using spawnCoin_frame(5) [OF sp] by simp
  then have vel: "v (player g') =
     (if justTouched inp then Rotate (cruise (v (player g))) (pi / 2) else cruise (v (player g)))"
    using g' by (simp add: afterSpawn_fields beforeHits_v)
  show "Norm (v (player g')) \<le> 2 \<and>
     (Norm (v (player g)) = 2 \<longrightarrow>
        Norm (v (player g')) = 2 \<and> (\<not> justTouched inp \<longrightarrow> v (player g') = v (player g)))"
    using vel Norm_cruise [of "v (player g)"] cruise_at_speed [of "v (player g)"]
    by (simp add: Norm_Rotate)
qed

text \<open>A quiet tick of \<open>flyingGame\<close>, which flies at speed 2.0.\<close>

theorem speed_limit_witness:
  "mode flyingGame = GameModePlaying \<and>
   Update quietInput flyingGame =
     Inr (afterSpawn quietInput (growZoomScale (countAllPointsOut (startTick flyingGame)))) \<and>
   Norm (v (player flyingGame)) = 2 \<and> \<not> justTouched quietInput \<and>
   v (player (afterSpawn quietInput (growZoomScale (countAllPointsOut (startTick flyingGame))))) =
     \<lparr>X = 0, Y = 2\<rparr> \<and>
   Norm (v (player (afterSpawn quietInput
     (growZoomScale (countAllPointsOut (startTick flyingGame)))))) \<le> 2"
proof -
  let ?g' = "afterSpawn quietInput (growZoomScale (countAllPointsOut (startTick flyingGame)))"
  have m: "mode flyingGame = GameModePlaying" by (simp add: flyingGame_def)
  have n: "Norm (v (player flyingGame)) = 2" by (simp add: flyingGame_def Norm_def)
  have q: "\<not> justTouched quietInput" by (simp add: quietInput_def)
  have vv: "v (player flyingGame) = \<lparr>X = 0, Y = 2\<rparr>" by (simp add: flyingGame_def)
  from speed_limit [of flyingGame quietInput ?g'] m quiet_flying n q
  have "Norm (v (player ?g')) \<le> 2 \<and> v (player ?g') = v (player flyingGame)"
    by blast
  with m quiet_flying n q vv show ?thesis by simp
qed

subsection \<open>C6: the modes\<close>

text \<open>
  Claim C6. The game starts in Title mode. Every \<open>Update\<close> that returns either keeps the
  mode or moves Title to Playing, Playing to GameOver, or GameOver to Title; the last
  happens only by \<open>initialize\<close>. No step skips a mode or goes backwards. Title becomes
  Playing exactly on a touch. Playing becomes GameOver exactly when, at the end of the
  tick, the life is at most 0 or the counter \<open>ticksFromAllPointsOut\<close> is above 160.
  GameOver becomes Title exactly on a touch after more than 60 ticks in the mode.
\<close>

theorem mode_transitions:
  "mode initialize = GameModeTitle \<and>
   (Update inp g = Inr g' \<longrightarrow>
     (mode g' = mode g \<or>
      mode g = GameModeTitle \<and> mode g' = GameModePlaying \<or>
      mode g = GameModePlaying \<and> mode g' = GameModeGameOver \<or>
      mode g = GameModeGameOver \<and> mode g' = GameModeTitle \<and> g' = initialize) \<and>
     (mode g = GameModeTitle \<longrightarrow> (mode g' = GameModePlaying \<longleftrightarrow> justTouched inp)) \<and>
     (mode g = GameModePlaying \<longrightarrow>
        (mode g' = GameModeGameOver \<longleftrightarrow>
           life (player g') \<le> 0 \<or> ticksFromAllPointsOut g' > 160)) \<and>
     (mode g = GameModeGameOver \<longrightarrow>
        (mode g' = GameModeTitle \<longleftrightarrow> ticksFromModeStart g + 1 > 60 \<and> justTouched inp)))"
proof (rule conjI)
  show "mode initialize = GameModeTitle" by simp
next
  show "Update inp g = Inr g' \<longrightarrow>
     (mode g' = mode g \<or>
      mode g = GameModeTitle \<and> mode g' = GameModePlaying \<or>
      mode g = GameModePlaying \<and> mode g' = GameModeGameOver \<or>
      mode g = GameModeGameOver \<and> mode g' = GameModeTitle \<and> g' = initialize) \<and>
     (mode g = GameModeTitle \<longrightarrow> (mode g' = GameModePlaying \<longleftrightarrow> justTouched inp)) \<and>
     (mode g = GameModePlaying \<longrightarrow>
        (mode g' = GameModeGameOver \<longleftrightarrow>
           life (player g') \<le> 0 \<or> ticksFromAllPointsOut g' > 160)) \<and>
     (mode g = GameModeGameOver \<longrightarrow>
        (mode g' = GameModeTitle \<longleftrightarrow> ticksFromModeStart g + 1 > 60 \<and> justTouched inp))"
  proof
    assume upd: "Update inp g = Inr g'"
    show "(mode g' = mode g \<or>
        mode g = GameModeTitle \<and> mode g' = GameModePlaying \<or>
        mode g = GameModePlaying \<and> mode g' = GameModeGameOver \<or>
        mode g = GameModeGameOver \<and> mode g' = GameModeTitle \<and> g' = initialize) \<and>
       (mode g = GameModeTitle \<longrightarrow> (mode g' = GameModePlaying \<longleftrightarrow> justTouched inp)) \<and>
       (mode g = GameModePlaying \<longrightarrow>
          (mode g' = GameModeGameOver \<longleftrightarrow>
             life (player g') \<le> 0 \<or> ticksFromAllPointsOut g' > 160)) \<and>
       (mode g = GameModeGameOver \<longrightarrow>
          (mode g' = GameModeTitle \<longleftrightarrow> ticksFromModeStart g + 1 > 60 \<and> justTouched inp))"
    proof (cases "mode g")
      case GameModeTitle
      with upd show ?thesis by (auto simp: Update_Title setNextMode_def split: if_splits)
    next
      case GameModeGameOver
      with upd show ?thesis by (auto simp: Update_GameOver split: if_splits)
    next
      case GameModePlaying
      from GameModePlaying upd obtain g1 where
        sp: "spawnCoin inp (growZoomScale (countAllPointsOut (startTick g))) = Inr g1"
        and g': "g' = afterSpawn inp g1"
        by (rule Update_PlayingE)
      have "mode g1 = GameModePlaying"
        using spawnCoin_frame(1) [OF sp] GameModePlaying by simp
      with g' GameModePlaying show ?thesis
        using afterSpawn_mode [of inp g1] by auto
    qed
  qed
qed

text \<open>A quiet tick of \<open>flyingGame\<close>: the life falls to 49.8 and the mode stays Playing.\<close>

theorem mode_transitions_witness:
  "Update quietInput flyingGame =
     Inr (afterSpawn quietInput (growZoomScale (countAllPointsOut (startTick flyingGame)))) \<and>
   mode flyingGame = GameModePlaying \<and>
   life (player (afterSpawn quietInput (growZoomScale (countAllPointsOut (startTick flyingGame))))) = 49.8 \<and>
   mode (afterSpawn quietInput (growZoomScale (countAllPointsOut (startTick flyingGame)))) = GameModePlaying"
proof -
  let ?g' = "afterSpawn quietInput (growZoomScale (countAllPointsOut (startTick flyingGame)))"
  have m: "mode flyingGame = GameModePlaying" by (simp add: flyingGame_def)
  have upd: "Update quietInput flyingGame = Inr ?g'"
    by (rule quiet_tick) (simp_all add: flyingGame_def quietInput_def)
  have l: "life (player ?g') = 49.8"
    by (simp add: life_after_spawn beforeHits_coins flyingGame_def)
  have c: "\<not> ticksFromAllPointsOut ?g' > 160"
    by (simp add: counter_after_spawn flyingGame_def)
  have "mode ?g' = mode flyingGame \<or> mode ?g' = GameModeGameOver"
    using mode_transitions [of quietInput flyingGame ?g'] upd m by auto
  moreover have "mode ?g' \<noteq> GameModeGameOver"
    using mode_transitions [of quietInput flyingGame ?g'] upd m l c by simp
  ultimately show ?thesis using upd m l by simp
qed

subsection \<open>C7: the frozen boundary\<close>

text \<open>
  Claim C7. In a Playing tick that starts with a counter \<open>ticksFromAllPointsOut\<close> other than
  zero, the step of lines 323 to 327 does not change the state, so the boundary is not
  zoomed (it is the boundary that line 290 left), while every coin is transformed as in
  every tick, whatever the counter is: it is zoomed about the player by the zoom scale of
  the tick, its depth grows by that scale and its radius is set from the new depth; the
  counter grows by one. In a tick that starts with the counter at zero the
  boundary is zoomed about the player, and the counter stays zero if a point of the
  boundary is on the expanded screen \<open>(-50, width + 50) \<times> (-50, height + 50)\<close>. In a tick at
  whose trimming the boundary is not empty and lies wholly off that screen, the counter
  grows by exactly one and the boundary is not trimmed. The counter is an unsigned 64-bit
  number: the statements about a counter that grows leave out the tick in which it would
  wrap around.
\<close>

theorem frozen_boundary:
  "mode g = GameModePlaying \<and>
   spawnCoin inp (growZoomScale (countAllPointsOut (startTick g))) = Inr g1 \<longrightarrow>
     Update inp g = Inr (afterSpawn inp g1) \<and>
     coins (beforeHits inp g1) =
       map (\<lambda>c. c\<lparr>cX := (cX c - X (pos (player (beforeHits inp g1)))) * zoomScale g1 +
                         X (pos (player (beforeHits inp g1))),
                   cY := (cY c - Y (pos (player (beforeHits inp g1)))) * zoomScale g1 +
                         Y (pos (player (beforeHits inp g1))),
                   cZ := cZ c + zoomScale g1,
                   vr := 10 * (cZ c + zoomScale g1) / 180\<rparr>) (coins g1) \<and>
     (ticksFromAllPointsOut g \<noteq> 0 \<and> ticksFromAllPointsOut g \<noteq> - 1 \<longrightarrow>
        zoomPoints (loseLife (movePlayer (turnOnTap inp (subdivide (accelerate g1))))) =
          loseLife (movePlayer (turnOnTap inp (subdivide (accelerate g1)))) \<and>
        points (beforeHits inp g1) = points (subdivide (accelerate g1)) \<and>
        ticksFromAllPointsOut (afterSpawn inp g1) = ticksFromAllPointsOut g + 1) \<and>
     (ticksFromAllPointsOut g = 0 \<longrightarrow>
        points (beforeHits inp g1) =
          map (\<lambda>p. zoom p (pos (player (beforeHits inp g1))) (zoomScale g1))
            (points (subdivide (accelerate g1))) \<and>
        ((\<exists>p \<in> set (points (beforeHits inp g1)). onScreen p) \<longrightarrow>
           ticksFromAllPointsOut (afterSpawn inp g1) = 0)) \<and>
     (points (beforeHits inp g1) \<noteq> [] \<and> (\<forall>p \<in> set (points (beforeHits inp g1)). \<not> onScreen p) \<and>
      ticksFromAllPointsOut g \<noteq> - 1 \<longrightarrow>
        ticksFromAllPointsOut (afterSpawn inp g1) = ticksFromAllPointsOut g + 1 \<and>
        points (afterSpawn inp g1) = points (beforeHits inp g1))"
proof
  assume a: "mode g = GameModePlaying \<and>
    spawnCoin inp (growZoomScale (countAllPointsOut (startTick g))) = Inr g1"
  then have m: "mode g = GameModePlaying"
    and sp: "spawnCoin inp (growZoomScale (countAllPointsOut (startTick g))) = Inr g1"
    by simp_all
  let ?h = "loseLife (movePlayer (turnOnTap inp (subdivide (accelerate g1))))"
  let ?bh = "beforeHits inp g1"
  have upd: "Update inp g = Inr (afterSpawn inp g1)"
    using m sp by (simp add: Update_Playing)
  have cs: "coins ?bh =
      map (\<lambda>c. c\<lparr>cX := (cX c - X (pos (player ?bh))) * zoomScale g1 + X (pos (player ?bh)),
                  cY := (cY c - Y (pos (player ?bh))) * zoomScale g1 + Y (pos (player ?bh)),
                  cZ := cZ c + zoomScale g1,
                  vr := 10 * (cZ c + zoomScale g1) / 180\<rparr>) (coins g1)"
    by (simp add: beforeHits_coins zoomCoin_def zoom_def Add_def Sub_def Mul_def Let_def
        coinHitZ_def)
  have c1: "ticksFromAllPointsOut g1 =
      (if ticksFromAllPointsOut g > 0 then ticksFromAllPointsOut g + 1
       else ticksFromAllPointsOut g)"
    by (rule points_before_hits(3) [OF sp])
  have pts: "points ?bh =
      (if ticksFromAllPointsOut g1 = 0
       then map (\<lambda>p. zoom p (pos (player ?bh)) (zoomScale g1)) (points (subdivide (accelerate g1)))
       else points (subdivide (accelerate g1)))"
    by (rule points_before_hits(2) [OF sp])
  have cnt: "ticksFromAllPointsOut (afterSpawn inp g1) =
      (if (\<forall>p \<in> set (points ?bh). \<not> onScreen p) \<and> ticksFromAllPointsOut g1 = 0 \<and> points ?bh \<noteq> []
       then 1 else ticksFromAllPointsOut g1)"
    by (simp add: counter_after_spawn)
  have frozen: "zoomPoints ?h = ?h \<and> points ?bh = points (subdivide (accelerate g1)) \<and>
      ticksFromAllPointsOut (afterSpawn inp g1) = ticksFromAllPointsOut g + 1"
    if nz: "ticksFromAllPointsOut g \<noteq> 0" and nw: "ticksFromAllPointsOut g \<noteq> - 1"
  proof -
    have "ticksFromAllPointsOut g + 1 \<noteq> 0"
      using nw max_word_wrap by blast
    with nz c1 have c1': "ticksFromAllPointsOut g1 = ticksFromAllPointsOut g + 1"
      "ticksFromAllPointsOut g1 \<noteq> 0"
      by (simp_all add: word_gt_0)
    then have "zoomPoints ?h = ?h" by (simp add: zoomPoints_def)
    with c1' pts cnt show ?thesis by simp
  qed
  have started: "points ?bh =
        map (\<lambda>p. zoom p (pos (player ?bh)) (zoomScale g1)) (points (subdivide (accelerate g1))) \<and>
      ((\<exists>p \<in> set (points ?bh). onScreen p) \<longrightarrow> ticksFromAllPointsOut (afterSpawn inp g1) = 0)"
    if z: "ticksFromAllPointsOut g = 0"
  proof -
    from z c1 have "ticksFromAllPointsOut g1 = 0" by simp
    with pts cnt show ?thesis by auto
  qed
  have gone: "ticksFromAllPointsOut (afterSpawn inp g1) = ticksFromAllPointsOut g + 1 \<and>
      points (afterSpawn inp g1) = points ?bh"
    if ne: "points ?bh \<noteq> []" and off: "\<forall>p \<in> set (points ?bh). \<not> onScreen p"
      and nw: "ticksFromAllPointsOut g \<noteq> - 1"
  proof -
    have p: "points (afterSpawn inp g1) = points ?bh"
      using off by (simp add: afterSpawn_fields trimmed_off_screen)
    show ?thesis
    proof (cases "ticksFromAllPointsOut g = 0")
      case True
      with c1 have "ticksFromAllPointsOut g1 = 0" by simp
      with cnt ne off True p show ?thesis by simp
    next
      case False
      with frozen nw p show ?thesis by simp
    qed
  qed
  show "Update inp g = Inr (afterSpawn inp g1) \<and>
     coins (beforeHits inp g1) =
       map (\<lambda>c. c\<lparr>cX := (cX c - X (pos (player (beforeHits inp g1)))) * zoomScale g1 +
                         X (pos (player (beforeHits inp g1))),
                   cY := (cY c - Y (pos (player (beforeHits inp g1)))) * zoomScale g1 +
                         Y (pos (player (beforeHits inp g1))),
                   cZ := cZ c + zoomScale g1,
                   vr := 10 * (cZ c + zoomScale g1) / 180\<rparr>) (coins g1) \<and>
     (ticksFromAllPointsOut g \<noteq> 0 \<and> ticksFromAllPointsOut g \<noteq> - 1 \<longrightarrow>
        zoomPoints ?h = ?h \<and>
        points (beforeHits inp g1) = points (subdivide (accelerate g1)) \<and>
        ticksFromAllPointsOut (afterSpawn inp g1) = ticksFromAllPointsOut g + 1) \<and>
     (ticksFromAllPointsOut g = 0 \<longrightarrow>
        points (beforeHits inp g1) =
          map (\<lambda>p. zoom p (pos (player (beforeHits inp g1))) (zoomScale g1))
            (points (subdivide (accelerate g1))) \<and>
        ((\<exists>p \<in> set (points (beforeHits inp g1)). onScreen p) \<longrightarrow>
           ticksFromAllPointsOut (afterSpawn inp g1) = 0)) \<and>
     (points (beforeHits inp g1) \<noteq> [] \<and> (\<forall>p \<in> set (points (beforeHits inp g1)). \<not> onScreen p) \<and>
      ticksFromAllPointsOut g \<noteq> - 1 \<longrightarrow>
        ticksFromAllPointsOut (afterSpawn inp g1) = ticksFromAllPointsOut g + 1 \<and>
        points (afterSpawn inp g1) = points (beforeHits inp g1))"
    using upd cs frozen started gone by blast
qed

text \<open>
  A quiet tick of \<open>frozenGame\<close>: the five points of the subdivided boundary are not zoomed,
  the coin at \<open>(420, 352)\<close> is zoomed about the player at \<open>(320, 252)\<close> by the scale
  \<open>1.00202004\<close> of the tick, and the counter goes from 5 to 6. A quiet tick of
  \<open>departedGame\<close>: the zoomed boundary is off the screen and the counter goes from 0 to 1.
\<close>

theorem frozen_boundary_witness:
  "mode frozenGame = GameModePlaying \<and>
   spawnCoin quietInput (growZoomScale (countAllPointsOut (startTick frozenGame))) =
     Inr (growZoomScale (countAllPointsOut (startTick frozenGame))) \<and>
   ticksFromAllPointsOut frozenGame = 5 \<and> (5 :: uint64) \<noteq> 0 \<and> (5 :: uint64) \<noteq> - 1 \<and>
   points (beforeHits quietInput (growZoomScale (countAllPointsOut (startTick frozenGame)))) =
     expandLine \<lparr>X = - 1000, Y = 300\<rparr> \<lparr>X = - 700, Y = 300\<rparr> \<and>
   coins frozenGame = [\<lparr>cX = 420, cY = 352, cZ = 100, vr = 5, hit = False\<rparr>] \<and>
   coins (beforeHits quietInput (growZoomScale (countAllPointsOut (startTick frozenGame)))) =
     [\<lparr>cX = 420.202004, cY = 352.202004, cZ = 101.00202004, vr = 1010.0202004 / 180,
       hit = False\<rparr>] \<and>
   ticksFromAllPointsOut
     (afterSpawn quietInput (growZoomScale (countAllPointsOut (startTick frozenGame)))) = 6 \<and>
   mode departedGame = GameModePlaying \<and>
   spawnCoin quietInput (growZoomScale (countAllPointsOut (startTick departedGame))) =
     Inr (growZoomScale (countAllPointsOut (startTick departedGame))) \<and>
   ticksFromAllPointsOut departedGame = 0 \<and>
   points (beforeHits quietInput (growZoomScale (countAllPointsOut (startTick departedGame)))) \<noteq> [] \<and>
   filter onScreen
     (points (beforeHits quietInput (growZoomScale (countAllPointsOut (startTick departedGame))))) = [] \<and>
   ticksFromAllPointsOut
     (afterSpawn quietInput (growZoomScale (countAllPointsOut (startTick departedGame)))) = 1"
proof -
  let ?f1 = "growZoomScale (countAllPointsOut (startTick frozenGame))"
  let ?d1 = "growZoomScale (countAllPointsOut (startTick departedGame))"
  let ?line = "expandLine \<lparr>X = - 1000, Y = 300\<rparr> \<lparr>X = - 700, Y = 300\<rparr>"
  have q: "randomInt quietInput = 1" by (simp add: quietInput_def)
  have spf: "spawnCoin quietInput ?f1 = Inr ?f1" using q by (rule quiet_spawn)
  have spd: "spawnCoin quietInput ?d1 = Inr ?d1" using q by (rule quiet_spawn)
  have n5: "(5 :: uint64) \<noteq> 0" "(5 :: uint64) \<noteq> - 1" by simp_all
  note F = frozen_boundary [of frozenGame quietInput ?f1]
  have subf: "points (subdivide (accelerate ?f1)) = ?line"
    by (simp add: frozen_fields expandPoints_pair)
  from F frozen_fields spf n5
  have "points (beforeHits quietInput ?f1) = points (subdivide (accelerate ?f1)) \<and>
        ticksFromAllPointsOut (afterSpawn quietInput ?f1) = ticksFromAllPointsOut frozenGame + 1"
    by simp
  then have f: "points (beforeHits quietInput ?f1) = ?line"
    "ticksFromAllPointsOut (afterSpawn quietInput ?f1) = 6"
    by (simp_all only: subf frozen_fields) simp_all
  have pf: "pos (player (beforeHits quietInput ?f1)) = \<lparr>X = 320, Y = 252\<rparr>"
    by (rule quiet_position) (simp_all add: frozen_fields)
  have zf: "zoomScale ?f1 = 1.00202004"
    by (simp add: growZoomScale_zoomScale zoomCeiling_def frozen_fields)
  have c0: "coins frozenGame = [\<lparr>cX = 420, cY = 352, cZ = 100, vr = 5, hit = False\<rparr>]"
    by (simp add: frozen_fields farCoin_def)
  have cf: "coins ?f1 = [\<lparr>cX = 420, cY = 352, cZ = 100, vr = 5, hit = False\<rparr>]"
    by (simp add: c0)
  from F frozen_fields(4) spf
  have "coins (beforeHits quietInput ?f1) =
       map (\<lambda>c. c\<lparr>cX := (cX c - X (pos (player (beforeHits quietInput ?f1)))) * zoomScale ?f1 +
                         X (pos (player (beforeHits quietInput ?f1))),
                   cY := (cY c - Y (pos (player (beforeHits quietInput ?f1)))) * zoomScale ?f1 +
                         Y (pos (player (beforeHits quietInput ?f1))),
                   cZ := cZ c + zoomScale ?f1,
                   vr := 10 * (cZ c + zoomScale ?f1) / 180\<rparr>) (coins ?f1)"
    by blast
  then have fc: "coins (beforeHits quietInput ?f1) =
      [\<lparr>cX = 420.202004, cY = 352.202004, cZ = 101.00202004, vr = 1010.0202004 / 180,
        hit = False\<rparr>]"
    by (simp only: pf zf cf) simp
  note D = frozen_boundary [of departedGame quietInput ?d1]
  have subd: "points (subdivide (accelerate ?d1)) = ?line"
    by (simp add: departed_fields expandPoints_pair)
  have pd: "pos (player (beforeHits quietInput ?d1)) = \<lparr>X = 320, Y = 252\<rparr>"
    by (rule quiet_position) (simp_all add: departed_fields)
  have zd: "zoomScale ?d1 = 1.00202004"
    by (simp add: growZoomScale_zoomScale zoomCeiling_def departed_fields)
  from D departed_fields spd
  have "points (beforeHits quietInput ?d1) =
          map (\<lambda>p. zoom p (pos (player (beforeHits quietInput ?d1))) (zoomScale ?d1))
            (points (subdivide (accelerate ?d1)))"
    by blast
  then have pts: "points (beforeHits quietInput ?d1) =
      map (\<lambda>p. zoom p \<lparr>X = 320, Y = 252\<rparr> 1.00202004) ?line"
    by (simp only: pd zd subd)
  have off: "filter onScreen (points (beforeHits quietInput ?d1)) = []"
    by (simp only: pts departed_zoomed_off_screen)
  then have off': "\<forall>p \<in> set (points (beforeHits quietInput ?d1)). \<not> onScreen p"
    by (simp add: filter_empty_conv)
  have ne: "points (beforeHits quietInput ?d1) \<noteq> []"
    by (simp only: pts) (simp add: expandLine_def Let_def)
  have nw: "ticksFromAllPointsOut departedGame \<noteq> - 1"
    by (simp add: departed_fields)
  from D departed_fields(4) spd ne off' nw
  have "ticksFromAllPointsOut (afterSpawn quietInput ?d1) = ticksFromAllPointsOut departedGame + 1"
    by blast
  then have d: "ticksFromAllPointsOut (afterSpawn quietInput ?d1) = 1"
    by (simp add: departed_fields)
  from frozen_fields(4,7) spf n5 f c0 fc departed_fields(4,7) spd ne off d show ?thesis by blast
qed

subsection \<open>C8: when the boundary is subdivided\<close>

text \<open>
  Claim C8. \<open>initialize\<close> runs the chained pass exactly five times on the base shape of
  four points, which gives 3073 points, and ends in Title mode. In a Playing tick the
  pass runs once more if and only if the boundary has fewer than 500 points when the
  tick reaches line 290, and these are the points the tick started with; with 500 points
  or more that step leaves the boundary as it is. The boundary at the end of the tick is
  what the zoom and the trimming make of the result.
\<close>

theorem subdivision_schedule:
  "length basePoints = 4 \<and>
   points initialize = (expandPoints ^^ 5) basePoints \<and>
   length (points initialize) = 3073 \<and>
   mode initialize = GameModeTitle \<and>
   (mode g = GameModePlaying \<and>
    spawnCoin inp (growZoomScale (countAllPointsOut (startTick g))) = Inr g1 \<longrightarrow>
      Update inp g = Inr (afterSpawn inp g1) \<and>
      points (accelerate g1) = points g \<and>
      points (subdivide (accelerate g1)) =
        (if length (points g) < 500 then expandPoints (points g) else points g) \<and>
      points (afterSpawn inp g1) =
        trimmed (if ticksFromAllPointsOut g1 = 0
                 then map (\<lambda>p. zoom p (pos (player (beforeHits inp g1))) (zoomScale g1))
                        (points (subdivide (accelerate g1)))
                 else points (subdivide (accelerate g1))))"
proof -
  have tick: "Update inp g = Inr (afterSpawn inp g1) \<and>
      points (accelerate g1) = points g \<and>
      points (subdivide (accelerate g1)) =
        (if length (points g) < 500 then expandPoints (points g) else points g) \<and>
      points (afterSpawn inp g1) =
        trimmed (if ticksFromAllPointsOut g1 = 0
                 then map (\<lambda>p. zoom p (pos (player (beforeHits inp g1))) (zoomScale g1))
                        (points (subdivide (accelerate g1)))
                 else points (subdivide (accelerate g1)))"
    if m: "mode g = GameModePlaying"
      and sp: "spawnCoin inp (growZoomScale (countAllPointsOut (startTick g))) = Inr g1"
  proof -
    have "Update inp g = Inr (afterSpawn inp g1)"
      using m sp by (simp add: Update_Playing)
    moreover have "points (accelerate g1) = points g"
      using spawnCoin_frame [OF sp] by simp
    moreover note points_before_hits(1) [OF sp]
    moreover have "points (afterSpawn inp g1) =
        trimmed (if ticksFromAllPointsOut g1 = 0
                 then map (\<lambda>p. zoom p (pos (player (beforeHits inp g1))) (zoomScale g1))
                        (points (subdivide (accelerate g1)))
                 else points (subdivide (accelerate g1)))"
      using points_before_hits(2) [OF sp] by (simp add: afterSpawn_fields)
    ultimately show ?thesis by blast
  qed
  have "points initialize = (expandPoints ^^ 5) basePoints" "mode initialize = GameModeTitle"
    by simp_all
  with tick basePoints_length initialize_length show ?thesis by blast
qed

text \<open>
  A quiet tick of \<open>flyingGame\<close>, whose two points become five, and the first Playing tick
  after the title screen, which leaves the 3073 points as they are.
\<close>

theorem subdivision_schedule_witness:
  "mode flyingGame = GameModePlaying \<and>
   spawnCoin quietInput (growZoomScale (countAllPointsOut (startTick flyingGame))) =
     Inr (growZoomScale (countAllPointsOut (startTick flyingGame))) \<and>
   length (points flyingGame) = 2 \<and>
   length (points (subdivide (accelerate
     (growZoomScale (countAllPointsOut (startTick flyingGame)))))) = 5 \<and>
   mode startedGame = GameModePlaying \<and>
   spawnCoin quietInput (growZoomScale (countAllPointsOut (startTick startedGame))) =
     Inr (growZoomScale (countAllPointsOut (startTick startedGame))) \<and>
   length (points startedGame) = 3073 \<and>
   points (subdivide (accelerate
     (growZoomScale (countAllPointsOut (startTick startedGame))))) = points startedGame"
proof -
  let ?f1 = "growZoomScale (countAllPointsOut (startTick flyingGame))"
  let ?s1 = "growZoomScale (countAllPointsOut (startTick startedGame))"
  have q: "randomInt quietInput = 1" by (simp add: quietInput_def)
  have mf: "mode flyingGame = GameModePlaying" and lf: "length (points flyingGame) = 2"
    by (simp_all add: flyingGame_def)
  have spf: "spawnCoin quietInput ?f1 = Inr ?f1" using q by (rule quiet_spawn)
  have ms: "mode startedGame = GameModePlaying"
    and ps: "points startedGame = points initialize"
    by (simp_all add: startedGame_def setNextMode_def)
  have ls: "length (points startedGame) = 3073"
    using initialize_length by (simp only: ps)
  have sps: "spawnCoin quietInput ?s1 = Inr ?s1" using q by (rule quiet_spawn)
  from subdivision_schedule [of flyingGame quietInput ?f1] mf spf
  have "points (subdivide (accelerate ?f1)) =
          (if length (points flyingGame) < 500 then expandPoints (points flyingGame)
           else points flyingGame)"
    by blast
  then have f5: "length (points (subdivide (accelerate ?f1))) = 5"
    by (simp only: lf) (simp add: expandPoints_length lf)
  from subdivision_schedule [of startedGame quietInput ?s1] ms sps
  have "points (subdivide (accelerate ?s1)) =
          (if length (points startedGame) < 500 then expandPoints (points startedGame)
           else points startedGame)"
    by blast
  then have s5: "points (subdivide (accelerate ?s1)) = points startedGame"
    by (simp only: ls) simp
  from mf spf lf f5 ms sps ls s5 show ?thesis by blast
qed

subsection \<open>C9: the boundary is never empty\<close>

text \<open>
  Claim C9 says that the boundary is not empty after \<open>initialize\<close> and stays so after
  every \<open>Update\<close>, so that \<open>drawFractal\<close> never reads \<open>g.points[0]\<close> of an empty sequence.
  After \<open>initialize\<close> it has 3073 points, and the trimming never empties a sequence
  (\<open>trimmed_nonempty\<close>); a Playing tick keeps a boundary of two points or more from
  becoming empty (\<open>long_boundary_stays\<close>). But the trimming can leave a single point, and
  the chained pass of the next tick turns one point into none, since its loop runs over
  segments (\<open>short_boundary_vanishes\<close>).

  Claim C9, at the failing input. \<open>edgeGame\<close> has a boundary of two points, the first on
  the screen and the second beyond its right edge. The first quiet tick trims the
  subdivided, zoomed boundary to its one point on the screen. The second quiet tick
  leaves no point: \<open>drawFractal\<close> then indexes an empty sequence, and a tick that spawns a
  coin dereferences the \<open>nil\<close> sample.
\<close>

theorem boundary_runs_empty:
  "points initialize \<noteq> [] \<and>
   mode edgeGame = GameModePlaying \<and>
   points edgeGame = [\<lparr>X = 680, Y = 240\<rparr>, \<lparr>X = 980, Y = 240\<rparr>] \<and>
   Update quietInput edgeGame = Inr edgeGame1 \<and>
   mode edgeGame1 = GameModePlaying \<and>
   points edgeGame1 = [\<lparr>X = 680.7272144, Y = 239.97575952\<rparr>] \<and>
   Update quietInput edgeGame1 = Inr edgeGame2 \<and>
   mode edgeGame2 = GameModePlaying \<and>
   points edgeGame2 = [] \<and>
   drawFractalEnds edgeGame2 = Inl IndexOutOfRange \<and>
   Update spawnInput edgeGame2 = Inl NilPointerDereference"
proof -
  have q: "randomInt quietInput = 1" by (simp add: quietInput_def)
  have i: "points initialize \<noteq> []"
    using initialize_length by auto
  have u1: "Update quietInput edgeGame = Inr edgeGame1"
    unfolding edgeGame1_def using edge_fields(4) q by (rule quiet_tick)
  have u2: "Update quietInput edgeGame1 = Inr edgeGame2"
    unfolding edgeGame2_def using edge1_mode q by (rule quiet_tick)
  have "length (points edgeGame1) \<le> 1" by (simp add: edge1_points)
  with edge1_mode have p2: "points edgeGame2 = []"
    using u2 by (rule short_boundary_vanishes)
  then have d: "drawFractalEnds edgeGame2 = Inl IndexOutOfRange"
    by (simp add: drawFractalEnds_def)
  have u3: "Update spawnInput edgeGame2 = Inl NilPointerDereference"
    by (simp add: Update_Playing edge2_mode spawnCoin_def spawnInput_def p2)
  from i edge_fields(4,1) u1 edge1_mode edge1_points u2 edge2_mode p2 d u3
  show ?thesis by blast
qed

subsection \<open>C10: the zoom scale\<close>

text \<open>
  Claim C10. The zoom scale is 1.0 after \<open>initialize\<close>, and it lies between 1.0 and 1.03
  after \<open>initialize\<close> and after every \<open>Update\<close>: \<open>zoomInv\<close> holds after \<open>initialize\<close> and every
  \<open>Update\<close> that returns keeps it. A Playing tick multiplies the scale by 1.00002 and cuts
  it at the ceiling of the new tick; as long as the 64-bit tick counter does not wrap
  around, that ceiling is not below the one of the tick before and the scale does not
  decrease.
\<close>

theorem zoomScale_bounds:
  "zoomInv initialize \<and> zoomScale initialize = 1 \<and>
   (zoomInv g \<and> Update inp g = Inr g' \<longrightarrow>
      zoomInv g' \<and> 1 \<le> zoomScale g' \<and> zoomScale g' \<le> 1.03 \<and>
      (mode g = GameModePlaying \<longrightarrow>
         zoomScale g' = min (zoomScale g * 1.00002) (zoomCeiling (ticksFromModeStart g + 1))) \<and>
      (mode g = GameModePlaying \<and> ticksFromModeStart g \<noteq> - 1 \<longrightarrow>
         zoomCeiling (ticksFromModeStart g) \<le> zoomCeiling (ticksFromModeStart g + 1) \<and>
         zoomScale g \<le> zoomScale g'))"
proof -
  have step: "zoomInv g' \<and> 1 \<le> zoomScale g' \<and> zoomScale g' \<le> 1.03 \<and>
      (mode g = GameModePlaying \<longrightarrow>
         zoomScale g' = min (zoomScale g * 1.00002) (zoomCeiling (ticksFromModeStart g + 1))) \<and>
      (mode g = GameModePlaying \<and> ticksFromModeStart g \<noteq> - 1 \<longrightarrow>
         zoomCeiling (ticksFromModeStart g) \<le> zoomCeiling (ticksFromModeStart g + 1) \<and>
         zoomScale g \<le> zoomScale g')"
    if inv: "zoomInv g" and upd: "Update inp g = Inr g'"
  proof (cases "mode g")
    case GameModeTitle
    with inv upd show ?thesis
      by (auto simp: Update_Title setNextMode_def zoomInv_def zoomCeiling_def split: if_splits)
  next
    case GameModeGameOver
    with inv upd show ?thesis
      by (auto simp: Update_GameOver zoomInv_def split: if_splits)
  next
    case GameModePlaying
    from GameModePlaying upd obtain g1 where
      sp: "spawnCoin inp (growZoomScale (countAllPointsOut (startTick g))) = Inr g1"
      and g': "g' = afterSpawn inp g1"
      by (rule Update_PlayingE)
    note g1 = zoomScale_after_spawn [OF sp]
    let ?c = "zoomCeiling (ticksFromModeStart g + 1)"
    have z': "zoomScale g' = min (zoomScale g * 1.00002) ?c"
      using g' g1 by (simp add: afterSpawn_fields)
    have z1: "1 \<le> zoomScale g" and zc: "zoomScale g \<le> zoomCeiling (ticksFromModeStart g)"
      using inv GameModePlaying by (simp_all add: zoomInv_def)
    have cb: "1.01 \<le> ?c" "?c \<le> 1.03"
      using zoomCeiling_bounds [of "ticksFromModeStart g + 1"] by simp_all
    have grow: "zoomScale g \<le> zoomScale g * 1.00002"
      using z1 by simp
    have lo: "1 \<le> zoomScale g'" using z' z1 cb grow by simp
    have hi: "zoomScale g' \<le> 1.03" using z' cb by simp
    have "mode g' \<noteq> GameModeTitle"
      using g' g1 GameModePlaying afterSpawn_mode [of inp g1] by (simp split: if_splits)
    moreover have "ticksFromModeStart g' = ticksFromModeStart g + 1" if "mode g' = GameModePlaying"
      using that g' g1 afterSpawn_mode [of inp g1] afterSpawn_ticks [of inp g1]
      by (simp split: if_splits)
    ultimately have inv': "zoomInv g'"
      using lo hi z' by (auto simp: zoomInv_def)
    have mono: "zoomCeiling (ticksFromModeStart g) \<le> ?c \<and> zoomScale g \<le> zoomScale g'"
      if "ticksFromModeStart g \<noteq> - 1"
    proof -
      have "zoomCeiling (ticksFromModeStart g) \<le> ?c"
        using that by (intro zoomCeiling_mono word_le_succ)
      with zc grow z' show ?thesis by simp
    qed
    show ?thesis using inv' lo hi z' mono by blast
  qed
  have "zoomScale initialize = 1" by simp
  with step zoomInv_initialize show ?thesis by blast
qed

text \<open>A quiet tick of \<open>flyingGame\<close>: the scale grows from 1.002 to 1.00202004.\<close>

theorem zoomScale_bounds_witness:
  "zoomInv flyingGame \<and>
   Update quietInput flyingGame =
     Inr (afterSpawn quietInput (growZoomScale (countAllPointsOut (startTick flyingGame)))) \<and>
   mode flyingGame = GameModePlaying \<and> ticksFromModeStart flyingGame \<noteq> - 1 \<and>
   zoomScale flyingGame = 1.002 \<and>
   zoomScale (afterSpawn quietInput (growZoomScale (countAllPointsOut (startTick flyingGame)))) =
     1.00202004 \<and>
   zoomInv (afterSpawn quietInput (growZoomScale (countAllPointsOut (startTick flyingGame))))"
proof -
  let ?g' = "afterSpawn quietInput (growZoomScale (countAllPointsOut (startTick flyingGame)))"
  have m: "mode flyingGame = GameModePlaying" by (simp add: flyingGame_def)
  have t: "ticksFromModeStart flyingGame \<noteq> - 1" by (simp add: flyingGame_def)
  have z: "zoomScale flyingGame = 1.002" by (simp add: flyingGame_def)
  have i: "zoomInv flyingGame" by (simp add: zoomInv_def zoomCeiling_def flyingGame_def)
  have c: "zoomCeiling (ticksFromModeStart flyingGame + 1) = 1.01"
    by (simp add: zoomCeiling_def flyingGame_def)
  from zoomScale_bounds [of flyingGame quietInput ?g'] i quiet_flying m
  have "zoomInv ?g' \<and>
        zoomScale ?g' = min (zoomScale flyingGame * 1.00002)
                             (zoomCeiling (ticksFromModeStart flyingGame + 1))"
    by blast
  then have "zoomInv ?g' \<and> zoomScale ?g' = 1.00202004"
    by (simp add: z c)
  with i quiet_flying m t z show ?thesis by blast
qed

end
